theory Spec2Isabelle
  imports Complex_Main "HOL-Library.Word"
begin

section \<open>Common conventions\<close>

text \<open>
  The development embeds three pieces of the ilqgames sources: the backward pass
  \<^verbatim>\<open>LQFeedbackSolver::Solve\<close>, the driver \<^verbatim>\<open>RecedingHorizonSimulator\<close> and the accessors
  of \<^verbatim>\<open>ControlSliders\<close>.

  \<^item> A fatal \<^verbatim>\<open>CHECK\<close> of glog, an uncaught exception and an access beyond the end of
    a \<^verbatim>\<open>std::vector\<close> are results of type \<open>error\<close>; every function that can reach
    one returns \<open>error + 'a\<close>.
  \<^item> A C++ data member \<^verbatim>\<open>foo_\<close> is written \<open>m_foo\<close>, since an Isabelle name cannot end
    with an underscore.
  \<^item> \<^verbatim>\<open>float\<close>, \<^verbatim>\<open>Time\<close> and the entries of \<^verbatim>\<open>MatrixXf\<close> are real numbers: rounding is
    not part of the model, so every statement below is one about exact arithmetic.
  \<^item> \<^verbatim>\<open>int\<close> is a 32-bit word read through \<open>sint\<close>, \<^verbatim>\<open>size_t\<close> a 64-bit word.
\<close>

type_synonym Time = real
type_synonym PlayerIndex = nat
type_synonym Dimension = nat
type_synonym cint = "32 word"
type_synonym size_t = "64 word"

datatype check =
    NotNull
  | LinearizationSize
  | QuadraticizationSize
  | OwnControlCost
  | ElapsedTime

datatype error =
    CheckFailed check
  | OutOfRange
  | StdOutOfRange

definition and_then :: "error + 'a \<Rightarrow> ('a \<Rightarrow> error + 'b) \<Rightarrow> error + 'b" where
  "and_then m f = (case m of Inl e \<Rightarrow> Inl e | Inr v \<Rightarrow> f v)"

text \<open>\<^verbatim>\<open>xs[i]\<close> on a \<^verbatim>\<open>std::vector\<close>, with the index of type \<^verbatim>\<open>size_t\<close>.\<close>

definition index :: "'a list \<Rightarrow> nat \<Rightarrow> error + 'a" where
  "index xs i = (if i < length xs then Inr (xs ! i) else Inl OutOfRange)"

text \<open>\<^verbatim>\<open>xs[i] = v\<close> on a \<^verbatim>\<open>std::vector\<close>.\<close>

definition assign_index :: "'a list \<Rightarrow> nat \<Rightarrow> 'a \<Rightarrow> error + 'a list" where
  "assign_index xs i v = (if i < length xs then Inr (xs[i := v]) else Inl OutOfRange)"


section \<open>ControlSliders\<close>

text \<open>
  \<^verbatim>\<open>std::min(a, b)\<close> is \<^verbatim>\<open>(b < a) ? b : a\<close> and \<^verbatim>\<open>std::max(a, b)\<close> is
  \<^verbatim>\<open>(a < b) ? b : a\<close>; on \<^verbatim>\<open>int\<close> the comparison is the signed one.
\<close>

definition std_min :: "Time \<Rightarrow> Time \<Rightarrow> Time" where
  "std_min a b = (if b < a then b else a)"

definition std_max :: "Time \<Rightarrow> Time \<Rightarrow> Time" where
  "std_max a b = (if a < b then b else a)"

definition std_min_int :: "cint \<Rightarrow> cint \<Rightarrow> cint" where
  "std_min_int a b = (if sint b < sint a then b else a)"

definition size :: "'a list \<Rightarrow> size_t" where
  "size xs = of_nat (length xs)"

definition static_cast_int :: "size_t \<Rightarrow> cint" where
  "static_cast_int n = ucast n"

text \<open>
  \<^verbatim>\<open>logs_[i]\<close> with an \<^verbatim>\<open>int\<close> index: the index is converted to \<^verbatim>\<open>size_t\<close>, so a
  negative one lands far beyond the end of the vector.
\<close>

definition subscript :: "'a list \<Rightarrow> cint \<Rightarrow> error + 'a" where
  "subscript xs i =
     (if 0 \<le> sint i \<and> nat (sint i) < length xs then Inr (xs ! nat (sint i))
      else Inl OutOfRange)"

text \<open>
  \<^verbatim>\<open>SolverLog\<close> is declared in a header that is not part of the sources at hand; the
  three accessors that \<^verbatim>\<open>ControlSliders\<close> calls are the fields of the record.
\<close>

record SolverLog =
  InitialTime :: Time
  FinalTime :: Time
  NumIterates :: size_t

record ControlSliders =
  m_interpolation_time :: real
  m_solver_iterate :: cint
  m_log_index :: cint
  m_logs :: "SolverLog list"

definition LogIndex :: "ControlSliders \<Rightarrow> cint" where
  "LogIndex cs = std_min_int (m_log_index cs) (static_cast_int (size (m_logs cs) - 1))"

definition SolverIterate :: "ControlSliders \<Rightarrow> error + cint" where
  "SolverIterate cs =
     and_then (subscript (m_logs cs) (LogIndex cs)) (\<lambda>log.
       Inr (std_min_int (m_solver_iterate cs) (static_cast_int (NumIterates log - 1))))"

definition InterpolationTime :: "ControlSliders \<Rightarrow> error + Time" where
  "InterpolationTime cs =
     and_then (subscript (m_logs cs) (LogIndex cs)) (\<lambda>log_final.
     and_then (subscript (m_logs cs) (LogIndex cs)) (\<lambda>log_initial.
       Inr (std_max (std_min (m_interpolation_time cs) (FinalTime log_final))
                    (InitialTime log_initial))))"

text \<open>Two slider states over the same single log, used in the examples below.\<close>

definition example_log :: SolverLog where
  "example_log = \<lparr>InitialTime = 0, FinalTime = 10, NumIterates = 5\<rparr>"

definition sliders_negative :: ControlSliders where
  "sliders_negative =
     \<lparr>m_interpolation_time = 0, m_solver_iterate = 0, m_log_index = - 1,
      m_logs = [example_log]\<rparr>"

definition sliders_large :: ControlSliders where
  "sliders_large =
     \<lparr>m_interpolation_time = 25, m_solver_iterate = 9, m_log_index = 3,
      m_logs = [example_log]\<rparr>"


section \<open>RecedingHorizonSimulator\<close>

text \<open>
  The driver calls \<^verbatim>\<open>Problem\<close>, \<^verbatim>\<open>SolutionSplicer\<close>, the dynamics' \<^verbatim>\<open>Integrate\<close> and the
  system clock, none of which is defined in the file that holds the driver. They are the
  fields of one record of collaborators, each a function on the state it reads and
  writes: \<open>'x\<close> is the state vector, \<open>'l\<close> a solver log, \<open>'p\<close> the problem, \<open>'s\<close> the
  splicer, \<open>'o\<close> an operating point and \<open>'g\<close> a set of strategies.
  \<open>Problem_Solve None\<close> is \<^verbatim>\<open>problem->Solve()\<close>, \<open>Problem_Solve (Some r)\<close> is
  \<^verbatim>\<open>problem->Solve(r)\<close>, and \<open>now n\<close> is what the \<open>n\<close>-th call of \<^verbatim>\<open>clock::now()\<close>
  returns, in seconds.
\<close>

record ('x, 'l, 'p, 's, 'o, 'g) collaborators =
  Problem_Solve :: "Time option \<Rightarrow> 'p \<Rightarrow> 'l \<times> 'p"
  SetUpNextRecedingHorizon :: "'x \<Rightarrow> Time \<Rightarrow> Time \<Rightarrow> 'p \<Rightarrow> 'p"
  OverwriteSolution :: "'o \<Rightarrow> 'g \<Rightarrow> 'p \<Rightarrow> 'p"
  InitialState :: "'p \<Rightarrow> 'x"
  Integrate :: "Time \<Rightarrow> Time \<Rightarrow> 'x \<Rightarrow> 'o \<Rightarrow> 'g \<Rightarrow> 'x"
  SolutionSplicer :: "'l \<Rightarrow> 's"
  Splice :: "'l \<Rightarrow> Time \<Rightarrow> 's \<Rightarrow> 's"
  CurrentOperatingPoint :: "'s \<Rightarrow> 'o"
  CurrentStrategies :: "'s \<Rightarrow> 'g"
  t0 :: "'o \<Rightarrow> Time"
  now :: "nat \<Rightarrow> Time"

text \<open>
  The local variables of the driver that live across iterations; \<open>sim_clock\<close> counts
  the calls of \<^verbatim>\<open>clock::now()\<close> made so far.
\<close>

record ('x, 'l, 'p, 's) simulation =
  sim_x :: 'x
  sim_t :: Time
  sim_logs :: "'l list"
  sim_problem :: 'p
  sim_splicer :: 's
  sim_clock :: nat

definition kExtraTime :: Time where
  "kExtraTime = 1 / 10"

text \<open>One pass through the body of the \<^verbatim>\<open>while\<close> loop.\<close>

definition iteration ::
  "('x, 'l, 'p, 's, 'o, 'g) collaborators \<Rightarrow> Time \<Rightarrow> ('x, 'l, 'p, 's) simulation
     \<Rightarrow> error + ('x, 'l, 'p, 's) simulation" where
  "iteration W planner_runtime s =
     (let problem1 = SetUpNextRecedingHorizon W (sim_x s) (sim_t s) planner_runtime (sim_problem s);
          solver_call_time = now W (sim_clock s);
          (log, problem2) = Problem_Solve W (Some planner_runtime) problem1;
          logs = sim_logs s @ [log];
          elapsed_time = now W (Suc (sim_clock s)) - solver_call_time
      in if \<not> elapsed_time \<le> planner_runtime then Inl (CheckFailed ElapsedTime)
         else
          let x1 = Integrate W (sim_t s) (sim_t s + elapsed_time) (sim_x s)
                     (CurrentOperatingPoint W (sim_splicer s))
                     (CurrentStrategies W (sim_splicer s));
              t1 = sim_t s + elapsed_time;
              splicer1 = Splice W (last logs) t1 (sim_splicer s);
              problem3 = OverwriteSolution W (CurrentOperatingPoint W splicer1)
                           (CurrentStrategies W splicer1) problem2;
              x2 = Integrate W t1 (t1 + kExtraTime) x1
                     (CurrentOperatingPoint W splicer1) (CurrentStrategies W splicer1);
              t2 = t1 + kExtraTime
          in Inr \<lparr>sim_x = x2, sim_t = t2, sim_logs = logs, sim_problem = problem3,
                  sim_splicer = splicer1, sim_clock = Suc (Suc (sim_clock s))\<rparr>)"

text \<open>
  The loop itself. Whether it ends depends on the clock, so it is a partial function:
  \<open>None\<close> stands for a run that never returns.
\<close>

partial_function (option) while_loop ::
  "('x, 'l, 'p, 's, 'o, 'g) collaborators \<Rightarrow> Time \<Rightarrow> Time \<Rightarrow> ('x, 'l, 'p, 's) simulation
     \<Rightarrow> (error + 'l list) option" where
  "while_loop W final_time planner_runtime s =
     (if sim_t s < final_time then
        (case iteration W planner_runtime s of
           Inl e \<Rightarrow> Some (Inl e)
         | Inr s' \<Rightarrow> while_loop W final_time planner_runtime s')
      else Some (Inr (sim_logs s)))"


text \<open>
  A small world for the examples: the clock advances by a twentieth of a second per
  reading, the state moves with unit speed, a log is the start time of its problem.
\<close>

definition toy_world :: "(real, real, real, real list, real, unit) collaborators" where
  "toy_world =
     \<lparr>Problem_Solve = (\<lambda>deadline p. (p, p)),
      SetUpNextRecedingHorizon = (\<lambda>x t planner_runtime p. t + planner_runtime),
      OverwriteSolution = (\<lambda>operating_point strategies p. p),
      InitialState = (\<lambda>p. 0),
      Integrate = (\<lambda>t_start t_end x operating_point strategies. x + (t_end - t_start)),
      SolutionSplicer = (\<lambda>log. [log]),
      Splice = (\<lambda>log t splicer. splicer @ [log]),
      CurrentOperatingPoint = (\<lambda>splicer. hd splicer),
      CurrentStrategies = (\<lambda>splicer. ()),
      t0 = (\<lambda>operating_point. operating_point),
      now = (\<lambda>n. real n / 20)\<rparr>"

definition toy_start :: "(real, real, real, real list) simulation" where
  "toy_start = \<lparr>sim_x = 0, sim_t = 0, sim_logs = [0], sim_problem = 0,
                 sim_splicer = [0], sim_clock = 2\<rparr>"


section \<open>Matrices\<close>

text \<open>
  A \<^verbatim>\<open>MatrixXf\<close> is its two dimensions and its entries; a \<^verbatim>\<open>VectorXf\<close> is a matrix with
  one column. The operations are those of Eigen that the solver uses. Eigen checks the
  dimensions of the operands by assertions that a release build compiles away; the
  model has no such check and the theorems below assume well-formed dimensions instead.
\<close>

datatype mat = Mat (nrows: nat) (ncols: nat) (ent: "nat \<Rightarrow> nat \<Rightarrow> real")

definition transpose_mat :: "mat \<Rightarrow> mat" where
  "transpose_mat M = Mat (ncols M) (nrows M) (\<lambda>i j. ent M j i)"

definition mat_mul :: "mat \<Rightarrow> mat \<Rightarrow> mat" where
  "mat_mul M N = Mat (nrows M) (ncols N) (\<lambda>i j. \<Sum>k<ncols M. ent M i k * ent N k j)"

definition mat_add :: "mat \<Rightarrow> mat \<Rightarrow> mat" where
  "mat_add M N = Mat (nrows M) (ncols M) (\<lambda>i j. ent M i j + ent N i j)"

definition mat_sub :: "mat \<Rightarrow> mat \<Rightarrow> mat" where
  "mat_sub M N = Mat (nrows M) (ncols M) (\<lambda>i j. ent M i j - ent N i j)"

definition Zero_mat :: "nat \<Rightarrow> nat \<Rightarrow> mat" where
  "Zero_mat r c = Mat r c (\<lambda>i j. 0)"

text \<open>\<^verbatim>\<open>M.block(i, j, p, q)\<close> read, and \<^verbatim>\<open>M.block(i, j, p, q) = V\<close>.\<close>

definition block :: "mat \<Rightarrow> nat \<Rightarrow> nat \<Rightarrow> nat \<Rightarrow> nat \<Rightarrow> mat" where
  "block M i j p q = Mat p q (\<lambda>r c. ent M (i + r) (j + c))"

definition assign_block :: "mat \<Rightarrow> nat \<Rightarrow> nat \<Rightarrow> nat \<Rightarrow> nat \<Rightarrow> mat \<Rightarrow> mat" where
  "assign_block M i j p q V =
     Mat (nrows M) (ncols M)
       (\<lambda>r c. if i \<le> r \<and> r < i + p \<and> j \<le> c \<and> c < j + q then ent V (r - i) (c - j)
              else ent M r c)"

text \<open>Equality of matrices as Eigen sees them: dimensions and entries within them.\<close>

definition mat_eq :: "mat \<Rightarrow> mat \<Rightarrow> bool" where
  "mat_eq M N \<longleftrightarrow>
     nrows M = nrows N \<and> ncols M = ncols N
     \<and> (\<forall>i\<in>{..<nrows M}. \<forall>j\<in>{..<ncols M}. ent M i j = ent N i j)"

definition symmetric :: "mat \<Rightarrow> bool" where
  "symmetric M \<longleftrightarrow>
     nrows M = ncols M \<and> (\<forall>i\<in>{..<nrows M}. \<forall>j\<in>{..<nrows M}. ent M i j = ent M j i)"


section \<open>LQFeedbackSolver\<close>

record LinearDynamicsApproximation =
  A :: mat
  Bs :: "mat list"

record SingleCostApproximation =
  hess :: mat
  grad :: mat

text \<open>
  \<open>control\<close> is a map from player indices to cost approximations; the list holds its
  entries in the order in which the map is traversed, each key once.
\<close>

record QuadraticCostApproximation =
  state :: SingleCostApproximation
  control :: "(PlayerIndex \<times> SingleCostApproximation) list"

record Strategy =
  Ps :: "mat list"
  alphas :: "mat list"

text \<open>The three getters of the dynamics that the solver calls.\<close>

record MultiPlayerIntegrableSystem =
  NumPlayers :: PlayerIndex
  XDim :: Dimension
  UDim :: "PlayerIndex \<Rightarrow> Dimension"

record LQFeedbackSolver =
  m_dynamics :: MultiPlayerIntegrableSystem
  m_num_time_steps :: nat
  m_Zs :: "mat list"
  m_zetas :: "mat list"
  m_S :: mat
  m_X :: mat
  m_Y :: mat
  m_F :: mat
  m_beta :: mat

text \<open>
  Modelled from the spec: the constructor of \<^verbatim>\<open>Strategy\<close>, which is called by \<^verbatim>\<open>Solve\<close> but
  declared in a header outside the sources at hand. The data model describes a strategy
  as a horizon-length sequence of gains \<open>P\<close> of dimension \<open>udim \<times> xdim\<close> and feedforward
  terms \<open>alpha\<close> of dimension \<open>udim\<close>; the constructor preallocates that many entries,
  which the model fills with zeros.
\<close>

definition Strategy_ctor :: "nat \<Rightarrow> Dimension \<Rightarrow> Dimension \<Rightarrow> Strategy" where
  "Strategy_ctor horizon xdim udim =
     \<lparr>Ps = replicate horizon (Zero_mat udim xdim),
      alphas = replicate horizon (Zero_mat udim 1)\<rparr>"

text \<open>The value of \<^verbatim>\<open>cumulative_udim\<close> when the loop over the players reaches \<open>ii\<close>.\<close>

definition cumulative_udim :: "MultiPlayerIntegrableSystem \<Rightarrow> PlayerIndex \<Rightarrow> Dimension" where
  "cumulative_udim d ii = sum_list (map (UDim d) [0..<ii])"

definition TotalUDim :: "MultiPlayerIntegrableSystem \<Rightarrow> Dimension" where
  "TotalUDim d = cumulative_udim d (NumPlayers d)"

text \<open>
  Modelled from the spec: the constructor of \<^verbatim>\<open>LQFeedbackSolver\<close>, declared in a header
  outside the sources at hand. The workspaces \<open>S\<close>, \<open>X\<close> and \<open>Y\<close> are allocated once, sized
  by the total control dimension and \<open>n + 1\<close> columns; \<open>Zs\<close> and \<open>zetas\<close> hold one entry per
  player.
\<close>

definition LQFeedbackSolver_ctor :: "MultiPlayerIntegrableSystem \<Rightarrow> nat \<Rightarrow> LQFeedbackSolver" where
  "LQFeedbackSolver_ctor dynamics num_time_steps =
     \<lparr>m_dynamics = dynamics,
      m_num_time_steps = num_time_steps,
      m_Zs = replicate (NumPlayers dynamics) (Zero_mat (XDim dynamics) (XDim dynamics)),
      m_zetas = replicate (NumPlayers dynamics) (Zero_mat (XDim dynamics) 1),
      m_S = Zero_mat (TotalUDim dynamics) (TotalUDim dynamics),
      m_X = Zero_mat (TotalUDim dynamics) (XDim dynamics + 1),
      m_Y = Zero_mat (TotalUDim dynamics) (XDim dynamics + 1),
      m_F = Zero_mat (XDim dynamics) (XDim dynamics),
      m_beta = Zero_mat (XDim dynamics) 1\<rparr>"

text \<open>
  Modelled from the spec: the members \<^verbatim>\<open>Ps_\<close> and \<^verbatim>\<open>alphas_\<close>, which the same header
  declares and the constructor sets up, one per player. The solution \<open>X\<close> stacks
  \<open>[P\<^sub>1 \<dots> P\<^sub>N | alpha\<^sub>1 \<dots> alpha\<^sub>N]\<close>, so \<^verbatim>\<open>Ps_[ii]\<close> and \<^verbatim>\<open>alphas_[ii]\<close> are views of the
  rows of player \<open>ii\<close> in \<open>X\<close>: the first \<open>n\<close> columns and column \<open>n\<close>.
\<close>

definition m_Ps :: "MultiPlayerIntegrableSystem \<Rightarrow> mat \<Rightarrow> PlayerIndex \<Rightarrow> error + mat" where
  "m_Ps d X ii =
     (if ii < NumPlayers d then Inr (block X (cumulative_udim d ii) 0 (UDim d ii) (XDim d))
      else Inl OutOfRange)"

text \<open>
  Modelled from the spec: \<^verbatim>\<open>alphas_[ii]\<close>, the rows of player \<open>ii\<close> in column \<open>n\<close> of \<open>X\<close>.
\<close>

definition m_alphas :: "MultiPlayerIntegrableSystem \<Rightarrow> mat \<Rightarrow> PlayerIndex \<Rightarrow> error + mat" where
  "m_alphas d X ii =
     (if ii < NumPlayers d then Inr (block X (cumulative_udim d ii) (XDim d) (UDim d ii) 1)
      else Inl OutOfRange)"

text \<open>\<^verbatim>\<open>xs.back()\<close> on a \<^verbatim>\<open>std::vector\<close>.\<close>

definition vector_back :: "'a list \<Rightarrow> error + 'a" where
  "vector_back xs = (if xs = [] then Inl OutOfRange else Inr (last xs))"

text \<open>The loop that initialises \<^verbatim>\<open>Zs_\<close> and \<^verbatim>\<open>zetas_\<close> at the final time.\<close>

definition initialize_player ::
  "QuadraticCostApproximation list list \<Rightarrow> PlayerIndex \<Rightarrow> mat list \<times> mat list
     \<Rightarrow> error + mat list \<times> mat list" where
  "initialize_player quadraticization ii ZZ =
     and_then (vector_back quadraticization) (\<lambda>quad_back.
     and_then (index quad_back ii) (\<lambda>q.
     and_then (assign_index (fst ZZ) ii (hess (state q))) (\<lambda>Zs.
     and_then (vector_back quadraticization) (\<lambda>quad_back2.
     and_then (index quad_back2 ii) (\<lambda>q2.
     and_then (assign_index (snd ZZ) ii (grad (state q2))) (\<lambda>zetas.
       Inr (Zs, zetas)))))))"

fun initialize_loop ::
  "QuadraticCostApproximation list list \<Rightarrow> PlayerIndex list \<Rightarrow> mat list \<times> mat list
     \<Rightarrow> error + mat list \<times> mat list" where
  "initialize_loop quadraticization [] ZZ = Inr ZZ"
| "initialize_loop quadraticization (ii # iis) ZZ =
     (case initialize_player quadraticization ii ZZ of
        Inl e \<Rightarrow> Inl e
      | Inr ZZ' \<Rightarrow> initialize_loop quadraticization iis ZZ')"

text \<open>
  The value assigned to the block of \<open>S\<close> in row block \<open>ii\<close> and column block \<open>jj\<close>, with
  the \<^verbatim>\<open>CHECK\<close> that player \<open>ii\<close>'s cost has an entry for its own control.
\<close>

definition S_block_value ::
  "LinearDynamicsApproximation \<Rightarrow> QuadraticCostApproximation list \<Rightarrow> mat
     \<Rightarrow> PlayerIndex \<Rightarrow> PlayerIndex \<Rightarrow> error + mat" where
  "S_block_value lin quad BiZi ii jj =
     (if ii = jj then
        and_then (index quad ii) (\<lambda>q.
          case map_of (control q) ii of
            None \<Rightarrow> Inl (CheckFailed OwnControlCost)
          | Some control_iter \<Rightarrow>
              and_then (index (Bs lin) ii) (\<lambda>Bi.
                Inr (mat_add (mat_mul BiZi Bi) (hess control_iter))))
      else
        and_then (index (Bs lin) jj) (\<lambda>Bj. Inr (mat_mul BiZi Bj)))"

text \<open>The inner loop over \<open>jj\<close>; \<open>crow\<close> and \<open>ccol\<close> are the two cumulative dimensions.\<close>

fun S_row_loop ::
  "MultiPlayerIntegrableSystem \<Rightarrow> LinearDynamicsApproximation
     \<Rightarrow> QuadraticCostApproximation list \<Rightarrow> mat \<Rightarrow> PlayerIndex \<Rightarrow> Dimension
     \<Rightarrow> PlayerIndex list \<Rightarrow> Dimension \<Rightarrow> mat \<Rightarrow> error + mat" where
  "S_row_loop d lin quad BiZi ii crow [] ccol S = Inr S"
| "S_row_loop d lin quad BiZi ii crow (jj # jjs) ccol S =
     (case S_block_value lin quad BiZi ii jj of
        Inl e \<Rightarrow> Inl e
      | Inr V \<Rightarrow>
          S_row_loop d lin quad BiZi ii crow jjs (ccol + UDim d jj)
            (assign_block S crow ccol (UDim d ii) (UDim d jj) V))"

text \<open>The body of the outer loop over \<open>ii\<close>: one row block of \<open>S\<close> and of \<open>Y\<close>.\<close>

definition populate_player ::
  "MultiPlayerIntegrableSystem \<Rightarrow> LinearDynamicsApproximation
     \<Rightarrow> QuadraticCostApproximation list \<Rightarrow> mat list \<Rightarrow> mat list \<Rightarrow> PlayerIndex
     \<Rightarrow> Dimension \<Rightarrow> mat \<times> mat \<Rightarrow> error + mat \<times> mat" where
  "populate_player d lin quad Zs zetas ii crow SY =
     and_then (index (Bs lin) ii) (\<lambda>Bi.
     and_then (index Zs ii) (\<lambda>Zi.
       let BiZi = mat_mul (transpose_mat Bi) Zi in
       and_then (S_row_loop d lin quad BiZi ii crow [0..<NumPlayers d] 0 (fst SY)) (\<lambda>S.
         let Y1 = assign_block (snd SY) crow 0 (UDim d ii) (XDim d) (mat_mul BiZi (A lin)) in
         and_then (index (Bs lin) ii) (\<lambda>Bi2.
         and_then (index zetas ii) (\<lambda>zeta_i.
         and_then (index quad ii) (\<lambda>q.
           case map_of (control q) ii of
             None \<Rightarrow> Inl StdOutOfRange
           | Some c \<Rightarrow>
               Inr (S, assign_block Y1 crow (XDim d) (UDim d ii) 1
                         (mat_add (mat_mul (transpose_mat Bi2) zeta_i) (grad c)))))))))"

fun populate_loop ::
  "MultiPlayerIntegrableSystem \<Rightarrow> LinearDynamicsApproximation
     \<Rightarrow> QuadraticCostApproximation list \<Rightarrow> mat list \<Rightarrow> mat list \<Rightarrow> PlayerIndex list
     \<Rightarrow> Dimension \<Rightarrow> mat \<times> mat \<Rightarrow> error + mat \<times> mat" where
  "populate_loop d lin quad Zs zetas [] crow SY = Inr SY"
| "populate_loop d lin quad Zs zetas (ii # iis) crow SY =
     (case populate_player d lin quad Zs zetas ii crow SY of
        Inl e \<Rightarrow> Inl e
      | Inr SY' \<Rightarrow> populate_loop d lin quad Zs zetas iis (crow + UDim d ii) SY')"

text \<open>Storing the strategy of the current time step.\<close>

definition set_strategy ::
  "MultiPlayerIntegrableSystem \<Rightarrow> mat \<Rightarrow> nat \<Rightarrow> PlayerIndex \<Rightarrow> Strategy list
     \<Rightarrow> error + Strategy list" where
  "set_strategy d X kk ii strategies =
     and_then (index strategies ii) (\<lambda>s.
     and_then (m_Ps d X ii) (\<lambda>P.
     and_then (assign_index (Ps s) kk P) (\<lambda>Ps'.
     and_then (m_alphas d X ii) (\<lambda>alpha.
     and_then (assign_index (alphas s) kk alpha) (\<lambda>alphas'.
       Inr (strategies[ii := \<lparr>Ps = Ps', alphas = alphas'\<rparr>]))))))"

fun set_strategy_loop ::
  "MultiPlayerIntegrableSystem \<Rightarrow> mat \<Rightarrow> nat \<Rightarrow> PlayerIndex list \<Rightarrow> Strategy list
     \<Rightarrow> error + Strategy list" where
  "set_strategy_loop d X kk [] strategies = Inr strategies"
| "set_strategy_loop d X kk (ii # iis) strategies =
     (case set_strategy d X kk ii strategies of
        Inl e \<Rightarrow> Inl e
      | Inr strategies' \<Rightarrow> set_strategy_loop d X kk iis strategies')"

text \<open>Computing \<open>F\<close> and \<open>beta\<close>.\<close>

definition F_beta_player ::
  "MultiPlayerIntegrableSystem \<Rightarrow> LinearDynamicsApproximation \<Rightarrow> mat \<Rightarrow> PlayerIndex
     \<Rightarrow> mat \<times> mat \<Rightarrow> error + mat \<times> mat" where
  "F_beta_player d lin X ii Fb =
     and_then (index (Bs lin) ii) (\<lambda>Bi.
     and_then (m_Ps d X ii) (\<lambda>P.
     and_then (index (Bs lin) ii) (\<lambda>Bi2.
     and_then (m_alphas d X ii) (\<lambda>alpha.
       Inr (mat_sub (fst Fb) (mat_mul Bi P), mat_sub (snd Fb) (mat_mul Bi2 alpha))))))"

fun F_beta_loop ::
  "MultiPlayerIntegrableSystem \<Rightarrow> LinearDynamicsApproximation \<Rightarrow> mat \<Rightarrow> PlayerIndex list
     \<Rightarrow> mat \<times> mat \<Rightarrow> error + mat \<times> mat" where
  "F_beta_loop d lin X [] Fb = Inr Fb"
| "F_beta_loop d lin X (ii # iis) Fb =
     (case F_beta_player d lin X ii Fb of
        Inl e \<Rightarrow> Inl e
      | Inr Fb' \<Rightarrow> F_beta_loop d lin X iis Fb')"

text \<open>
  Updating \<open>Zs\<close> and \<open>zetas\<close>: the loop over the entries of player \<open>ii\<close>'s control costs,
  and the body of the loop over the players. The pair is \<open>(zeta\<^sub>i, Z\<^sub>i)\<close>.
\<close>

definition Rij_entry ::
  "MultiPlayerIntegrableSystem \<Rightarrow> mat \<Rightarrow> PlayerIndex \<times> SingleCostApproximation
     \<Rightarrow> mat \<times> mat \<Rightarrow> error + mat \<times> mat" where
  "Rij_entry d X entry zZ =
     (let jj = fst entry; Rij = hess (snd entry); rij = grad (snd entry) in
      and_then (m_Ps d X jj) (\<lambda>Pj.
      and_then (m_alphas d X jj) (\<lambda>alpha_j.
      and_then (m_Ps d X jj) (\<lambda>Pj2.
      and_then (m_Ps d X jj) (\<lambda>Pj3.
        Inr (mat_add (fst zZ) (mat_mul (transpose_mat Pj) (mat_sub (mat_mul Rij alpha_j) rij)),
             mat_add (snd zZ) (mat_mul (mat_mul (transpose_mat Pj2) Rij) Pj3)))))))"

fun Rij_loop ::
  "MultiPlayerIntegrableSystem \<Rightarrow> mat \<Rightarrow> (PlayerIndex \<times> SingleCostApproximation) list
     \<Rightarrow> mat \<times> mat \<Rightarrow> error + mat \<times> mat" where
  "Rij_loop d X [] zZ = Inr zZ"
| "Rij_loop d X (entry # entries) zZ =
     (case Rij_entry d X entry zZ of
        Inl e \<Rightarrow> Inl e
      | Inr zZ' \<Rightarrow> Rij_loop d X entries zZ')"

definition update_player ::
  "MultiPlayerIntegrableSystem \<Rightarrow> mat \<Rightarrow> mat \<Rightarrow> mat \<Rightarrow> QuadraticCostApproximation list
     \<Rightarrow> PlayerIndex \<Rightarrow> mat list \<times> mat list \<Rightarrow> error + mat list \<times> mat list" where
  "update_player d X F beta quad ii ZZ =
     and_then (index (snd ZZ) ii) (\<lambda>zeta_i.
     and_then (index (fst ZZ) ii) (\<lambda>Zi.
     and_then (index quad ii) (\<lambda>q.
       let zeta1 = mat_add (mat_mul (transpose_mat F) (mat_add zeta_i (mat_mul Zi beta)))
                     (grad (state q));
           Z1 = mat_add (mat_mul (mat_mul (transpose_mat F) Zi) F) (hess (state q))
       in and_then (Rij_loop d X (control q) (zeta1, Z1)) (\<lambda>zZ.
            Inr ((fst ZZ)[ii := snd zZ], (snd ZZ)[ii := fst zZ])))))"

fun update_loop ::
  "MultiPlayerIntegrableSystem \<Rightarrow> mat \<Rightarrow> mat \<Rightarrow> mat \<Rightarrow> QuadraticCostApproximation list
     \<Rightarrow> PlayerIndex list \<Rightarrow> mat list \<times> mat list \<Rightarrow> error + mat list \<times> mat list" where
  "update_loop d X F beta quad [] ZZ = Inr ZZ"
| "update_loop d X F beta quad (ii # iis) ZZ =
     (case update_player d X F beta quad ii ZZ of
        Inl e \<Rightarrow> Inl e
      | Inr ZZ' \<Rightarrow> update_loop d X F beta quad iis ZZ')"

text \<open>
  One step of the backward pass, at time step \<open>kk\<close>. The parameter \<open>qr\<close> stands for
  Eigen's \<^verbatim>\<open>S.householderQr().solve(Y)\<close>.
\<close>

definition backward_step ::
  "(mat \<Rightarrow> mat \<Rightarrow> mat) \<Rightarrow> LinearDynamicsApproximation \<Rightarrow> QuadraticCostApproximation list
     \<Rightarrow> nat \<Rightarrow> LQFeedbackSolver \<times> Strategy list \<Rightarrow> error + LQFeedbackSolver \<times> Strategy list" where
  "backward_step qr lin quad kk state_strategies =
     (let sv = fst state_strategies; strategies = snd state_strategies;
          d = m_dynamics sv; players = [0..<NumPlayers d] in
      and_then (populate_loop d lin quad (m_Zs sv) (m_zetas sv) players 0 (m_S sv, m_Y sv))
        (\<lambda>SY.
      let X = qr (fst SY) (snd SY) in
      and_then (set_strategy_loop d X kk players strategies) (\<lambda>strategies'.
      and_then (F_beta_loop d lin X players (A lin, Zero_mat (XDim d) 1)) (\<lambda>Fb.
      and_then (update_loop d X (fst Fb) (snd Fb) quad players (m_Zs sv, m_zetas sv)) (\<lambda>ZZ.
        Inr (sv\<lparr>m_Zs := fst ZZ, m_zetas := snd ZZ, m_S := fst SY, m_X := X, m_Y := snd SY,
                m_F := fst Fb, m_beta := snd Fb\<rparr>,
             strategies'))))))"

fun backward_pass ::
  "(mat \<Rightarrow> mat \<Rightarrow> mat) \<Rightarrow> LinearDynamicsApproximation list
     \<Rightarrow> QuadraticCostApproximation list list \<Rightarrow> nat list
     \<Rightarrow> LQFeedbackSolver \<times> Strategy list \<Rightarrow> error + LQFeedbackSolver \<times> Strategy list" where
  "backward_pass qr linearization quadraticization [] st = Inr st"
| "backward_pass qr linearization quadraticization (kk # kks) st =
     (case and_then (index linearization kk) (\<lambda>lin.
           and_then (index quadraticization kk) (\<lambda>quad.
             backward_step qr lin quad kk st)) of
        Inl e \<Rightarrow> Inl e
      | Inr st' \<Rightarrow> backward_pass qr linearization quadraticization kks st')"

text \<open>
  The time steps visited by \<^verbatim>\<open>for (int kk = num_time_steps_ - 2; kk >= 0; kk--)\<close>, for a
  number of time steps that fits an \<^verbatim>\<open>int\<close>.
\<close>

definition time_steps :: "nat \<Rightarrow> nat list" where
  "time_steps num_time_steps = rev [0..<num_time_steps - 1]"

text \<open>
  \<^verbatim>\<open>Solve\<close> up to the start of the backward pass: the two checks, the construction of the
  strategies and the initialisation of \<open>Zs\<close> and \<open>zetas\<close>.
\<close>

definition Solve_setup ::
  "LQFeedbackSolver \<Rightarrow> LinearDynamicsApproximation list \<Rightarrow> QuadraticCostApproximation list list
     \<Rightarrow> error + LQFeedbackSolver \<times> Strategy list" where
  "Solve_setup sv linearization quadraticization =
     (if length linearization \<noteq> m_num_time_steps sv then Inl (CheckFailed LinearizationSize)
      else if length quadraticization \<noteq> m_num_time_steps sv
        then Inl (CheckFailed QuadraticizationSize)
      else
        let d = m_dynamics sv;
            strategies = map (\<lambda>ii. Strategy_ctor (m_num_time_steps sv) (XDim d) (UDim d ii))
                           [0..<NumPlayers d]
        in and_then (initialize_loop quadraticization [0..<NumPlayers d] (m_Zs sv, m_zetas sv))
             (\<lambda>ZZ. Inr (sv\<lparr>m_Zs := fst ZZ, m_zetas := snd ZZ\<rparr>, strategies)))"

text \<open>
  \<^verbatim>\<open>LQFeedbackSolver::Solve\<close>. The result holds the solver object as the call leaves it
  and the strategies that the call returns.
\<close>

definition Solve ::
  "(mat \<Rightarrow> mat \<Rightarrow> mat) \<Rightarrow> LQFeedbackSolver \<Rightarrow> LinearDynamicsApproximation list
     \<Rightarrow> QuadraticCostApproximation list list \<Rightarrow> error + LQFeedbackSolver \<times> Strategy list" where
  "Solve qr sv linearization quadraticization =
     and_then (Solve_setup sv linearization quadraticization)
       (backward_pass qr linearization quadraticization (time_steps (m_num_time_steps sv)))"

text \<open>
  The state of the solver and of the strategies at the moment the backward pass enters
  time step \<open>k\<close>, that is after the steps \<open>num_time_steps - 2, \<dots>, k + 1\<close>.
\<close>

definition Solve_until ::
  "(mat \<Rightarrow> mat \<Rightarrow> mat) \<Rightarrow> LQFeedbackSolver \<Rightarrow> LinearDynamicsApproximation list
     \<Rightarrow> QuadraticCostApproximation list list \<Rightarrow> nat
     \<Rightarrow> error + LQFeedbackSolver \<times> Strategy list" where
  "Solve_until qr sv linearization quadraticization k =
     and_then (Solve_setup sv linearization quadraticization)
       (backward_pass qr linearization quadraticization
          (rev [Suc k..<m_num_time_steps sv - 1]))"


section \<open>The backward step as the specification states it\<close>

text \<open>
  The entries \<open>R\<^sub>i\<^sub>j\<close> and \<open>r\<^sub>i\<^sub>j\<close> of player \<open>i\<close>'s control costs, and the players \<open>j\<close> for
  which player \<open>i\<close>'s cost has such an entry.
\<close>

definition Rij :: "QuadraticCostApproximation list \<Rightarrow> PlayerIndex \<Rightarrow> PlayerIndex \<Rightarrow> mat" where
  "Rij quad i j = hess (the (map_of (control (quad ! i)) j))"

definition rij :: "QuadraticCostApproximation list \<Rightarrow> PlayerIndex \<Rightarrow> PlayerIndex \<Rightarrow> mat" where
  "rij quad i j = grad (the (map_of (control (quad ! i)) j))"

definition control_players :: "QuadraticCostApproximation list \<Rightarrow> PlayerIndex \<Rightarrow> PlayerIndex set" where
  "control_players quad i = set (map fst (control (quad ! i)))"

text \<open>
  The blocks of the linear system: \<open>S\<^sub>i\<^sub>i = B\<^sub>i\<^sup>T Z\<^sub>i B\<^sub>i + R\<^sub>i\<^sub>i\<close>, \<open>S\<^sub>i\<^sub>j = B\<^sub>i\<^sup>T Z\<^sub>i B\<^sub>j\<close>, and the
  two parts \<open>B\<^sub>i\<^sup>T Z\<^sub>i A\<close> and \<open>B\<^sub>i\<^sup>T zeta\<^sub>i + r\<^sub>i\<^sub>i\<close> of the right-hand side.
\<close>

definition spec_S_block ::
  "LinearDynamicsApproximation \<Rightarrow> QuadraticCostApproximation list \<Rightarrow> mat list
     \<Rightarrow> PlayerIndex \<Rightarrow> PlayerIndex \<Rightarrow> mat" where
  "spec_S_block lin quad Zs i j =
     (if i = j then
        mat_add (mat_mul (mat_mul (transpose_mat (Bs lin ! i)) (Zs ! i)) (Bs lin ! i))
          (Rij quad i i)
      else mat_mul (mat_mul (transpose_mat (Bs lin ! i)) (Zs ! i)) (Bs lin ! j))"

definition spec_Y_state :: "LinearDynamicsApproximation \<Rightarrow> mat list \<Rightarrow> PlayerIndex \<Rightarrow> mat" where
  "spec_Y_state lin Zs i = mat_mul (mat_mul (transpose_mat (Bs lin ! i)) (Zs ! i)) (A lin)"

definition spec_Y_last ::
  "LinearDynamicsApproximation \<Rightarrow> QuadraticCostApproximation list \<Rightarrow> mat list
     \<Rightarrow> PlayerIndex \<Rightarrow> mat" where
  "spec_Y_last lin quad zetas i =
     mat_add (mat_mul (transpose_mat (Bs lin ! i)) (zetas ! i)) (rij quad i i)"

text \<open>Row block \<open>i\<close> of \<open>S\<close> and \<open>Y\<close> holds what the specification states.\<close>

definition row_populated ::
  "MultiPlayerIntegrableSystem \<Rightarrow> LinearDynamicsApproximation
     \<Rightarrow> QuadraticCostApproximation list \<Rightarrow> mat list \<Rightarrow> mat list \<Rightarrow> PlayerIndex
     \<Rightarrow> mat \<Rightarrow> mat \<Rightarrow> bool" where
  "row_populated d lin quad Zs zetas i S Y \<longleftrightarrow>
     (\<forall>j\<in>{..<NumPlayers d}.
        mat_eq (block S (cumulative_udim d i) (cumulative_udim d j) (UDim d i) (UDim d j))
          (spec_S_block lin quad Zs i j))
     \<and> mat_eq (block Y (cumulative_udim d i) 0 (UDim d i) (XDim d)) (spec_Y_state lin Zs i)
     \<and> mat_eq (block Y (cumulative_udim d i) (XDim d) (UDim d i) 1)
          (spec_Y_last lin quad zetas i)"

text \<open>
  The rows of player \<open>j\<close> in the stacked solution \<open>X\<close>: the gain \<open>P\<^sub>j\<close> in the first \<open>n\<close>
  columns and the feedforward term \<open>alpha\<^sub>j\<close> in column \<open>n\<close>.
\<close>

definition P_rows :: "MultiPlayerIntegrableSystem \<Rightarrow> mat \<Rightarrow> PlayerIndex \<Rightarrow> mat" where
  "P_rows d X j = block X (cumulative_udim d j) 0 (UDim d j) (XDim d)"

definition alpha_rows :: "MultiPlayerIntegrableSystem \<Rightarrow> mat \<Rightarrow> PlayerIndex \<Rightarrow> mat" where
  "alpha_rows d X j = block X (cumulative_udim d j) (XDim d) (UDim d j) 1"

text \<open>The sum of the matrices \<open>f j\<close> over the players \<open>j\<close> of a finite set, and the negation.\<close>

definition mat_sum :: "nat \<Rightarrow> nat \<Rightarrow> PlayerIndex set \<Rightarrow> (PlayerIndex \<Rightarrow> mat) \<Rightarrow> mat" where
  "mat_sum r c J f = Mat r c (\<lambda>a b. \<Sum>j\<in>J. ent (f j) a b)"

definition mat_neg :: "mat \<Rightarrow> mat" where
  "mat_neg M = Mat (nrows M) (ncols M) (\<lambda>a b. - ent M a b)"

text \<open>
  The closed-loop matrix \<open>F = A - \<Sum>\<^sub>j B\<^sub>j P\<^sub>j\<close>, the drift \<open>beta = - \<Sum>\<^sub>j B\<^sub>j alpha\<^sub>j\<close>, and the
  updated values \<open>zeta\<^sub>i = F\<^sup>T (zeta\<^sub>i + Z\<^sub>i beta) + l\<^sub>i + \<Sum>\<^sub>j P\<^sub>j\<^sup>T (R\<^sub>i\<^sub>j alpha\<^sub>j - r\<^sub>i\<^sub>j)\<close> and
  \<open>Z\<^sub>i = F\<^sup>T Z\<^sub>i F + Q\<^sub>i + \<Sum>\<^sub>j P\<^sub>j\<^sup>T R\<^sub>i\<^sub>j P\<^sub>j\<close>, the last two sums over the players \<open>j\<close> for
  which player \<open>i\<close>'s cost has an entry.
\<close>

definition spec_F :: "MultiPlayerIntegrableSystem \<Rightarrow> LinearDynamicsApproximation \<Rightarrow> mat \<Rightarrow> mat" where
  "spec_F d lin X =
     mat_sub (A lin)
       (mat_sum (XDim d) (XDim d) {..<NumPlayers d} (\<lambda>j. mat_mul (Bs lin ! j) (P_rows d X j)))"

definition spec_beta :: "MultiPlayerIntegrableSystem \<Rightarrow> LinearDynamicsApproximation \<Rightarrow> mat \<Rightarrow> mat" where
  "spec_beta d lin X =
     mat_neg (mat_sum (XDim d) 1 {..<NumPlayers d} (\<lambda>j. mat_mul (Bs lin ! j) (alpha_rows d X j)))"

definition spec_zeta ::
  "MultiPlayerIntegrableSystem \<Rightarrow> QuadraticCostApproximation list \<Rightarrow> mat \<Rightarrow> mat \<Rightarrow> mat
     \<Rightarrow> mat list \<Rightarrow> mat list \<Rightarrow> PlayerIndex \<Rightarrow> mat" where
  "spec_zeta d quad X F beta Zs zetas i =
     mat_add
       (mat_add (mat_mul (transpose_mat F) (mat_add (zetas ! i) (mat_mul (Zs ! i) beta)))
          (grad (state (quad ! i))))
       (mat_sum (XDim d) 1 (control_players quad i)
          (\<lambda>j. mat_mul (transpose_mat (P_rows d X j))
                 (mat_sub (mat_mul (Rij quad i j) (alpha_rows d X j)) (rij quad i j))))"

definition spec_Z ::
  "MultiPlayerIntegrableSystem \<Rightarrow> QuadraticCostApproximation list \<Rightarrow> mat \<Rightarrow> mat
     \<Rightarrow> mat list \<Rightarrow> PlayerIndex \<Rightarrow> mat" where
  "spec_Z d quad X F Zs i =
     mat_add
       (mat_add (mat_mul (mat_mul (transpose_mat F) (Zs ! i)) F) (hess (state (quad ! i))))
       (mat_sum (XDim d) (XDim d) (control_players quad i)
          (\<lambda>j. mat_mul (mat_mul (transpose_mat (P_rows d X j)) (Rij quad i j)) (P_rows d X j)))"


section \<open>Well-formed arguments\<close>

text \<open>
  Well-formed inputs of one backward step: every vector has one entry per player, every
  matrix the dimensions that the dynamics announce, every control cost of a player
  refers to a player, and the running values \<open>Z\<^sub>i\<close> and \<open>zeta\<^sub>i\<close> are \<open>n \<times> n\<close> and \<open>n \<times> 1\<close>.
\<close>

definition wf_lin :: "MultiPlayerIntegrableSystem \<Rightarrow> LinearDynamicsApproximation \<Rightarrow> bool" where
  "wf_lin d lin \<longleftrightarrow>
     nrows (A lin) = XDim d \<and> ncols (A lin) = XDim d
     \<and> length (Bs lin) = NumPlayers d
     \<and> (\<forall>i\<in>{..<NumPlayers d}. nrows (Bs lin ! i) = XDim d \<and> ncols (Bs lin ! i) = UDim d i)"

definition wf_cost :: "MultiPlayerIntegrableSystem \<Rightarrow> QuadraticCostApproximation \<Rightarrow> bool" where
  "wf_cost d q \<longleftrightarrow>
     nrows (hess (state q)) = XDim d \<and> ncols (hess (state q)) = XDim d
     \<and> nrows (grad (state q)) = XDim d \<and> ncols (grad (state q)) = 1
     \<and> distinct (map fst (control q))
     \<and> (\<forall>entry\<in>set (control q).
           fst entry < NumPlayers d
           \<and> nrows (hess (snd entry)) = UDim d (fst entry)
           \<and> ncols (hess (snd entry)) = UDim d (fst entry)
           \<and> nrows (grad (snd entry)) = UDim d (fst entry)
           \<and> ncols (grad (snd entry)) = 1)"

definition wf_quad :: "MultiPlayerIntegrableSystem \<Rightarrow> QuadraticCostApproximation list \<Rightarrow> bool" where
  "wf_quad d quad \<longleftrightarrow> length quad = NumPlayers d \<and> (\<forall>q\<in>set quad. wf_cost d q)"

definition own_costs :: "MultiPlayerIntegrableSystem \<Rightarrow> QuadraticCostApproximation list \<Rightarrow> bool" where
  "own_costs d quad \<longleftrightarrow> (\<forall>i\<in>{..<NumPlayers d}. i \<in> control_players quad i)"

definition wf_values :: "MultiPlayerIntegrableSystem \<Rightarrow> mat list \<Rightarrow> mat list \<Rightarrow> bool" where
  "wf_values d Zs zetas \<longleftrightarrow>
     length Zs = NumPlayers d \<and> length zetas = NumPlayers d
     \<and> (\<forall>Z\<in>set Zs. nrows Z = XDim d \<and> ncols Z = XDim d)
     \<and> (\<forall>z\<in>set zetas. nrows z = XDim d \<and> ncols z = 1)"

definition wf_strategies :: "MultiPlayerIntegrableSystem \<Rightarrow> nat \<Rightarrow> Strategy list \<Rightarrow> bool" where
  "wf_strategies d kk strategies \<longleftrightarrow>
     length strategies = NumPlayers d
     \<and> (\<forall>s\<in>set strategies. kk < length (Ps s) \<and> kk < length (alphas s))"

text \<open>
  Well-formed arguments of \<^verbatim>\<open>Solve\<close>: at least one time step, the members \<^verbatim>\<open>Zs_\<close> and
  \<^verbatim>\<open>zetas_\<close> sized by the number of players, and every linearization and quadraticization
  well-formed. The lengths of the two horizons and the presence of the players' own
  control costs are stated apart, since \<^verbatim>\<open>Solve\<close> checks them itself.
\<close>

definition wf_problem ::
  "LQFeedbackSolver \<Rightarrow> LinearDynamicsApproximation list
     \<Rightarrow> QuadraticCostApproximation list list \<Rightarrow> bool" where
  "wf_problem sv linearization quadraticization \<longleftrightarrow>
     0 < m_num_time_steps sv
     \<and> length (m_Zs sv) = NumPlayers (m_dynamics sv)
     \<and> length (m_zetas sv) = NumPlayers (m_dynamics sv)
     \<and> (\<forall>lin\<in>set linearization. wf_lin (m_dynamics sv) lin)
     \<and> (\<forall>quad\<in>set quadraticization. wf_quad (m_dynamics sv) quad)"

definition horizons_match ::
  "LQFeedbackSolver \<Rightarrow> LinearDynamicsApproximation list
     \<Rightarrow> QuadraticCostApproximation list list \<Rightarrow> bool" where
  "horizons_match sv linearization quadraticization \<longleftrightarrow>
     length linearization = m_num_time_steps sv
     \<and> length quadraticization = m_num_time_steps sv"

definition own_costs_present ::
  "LQFeedbackSolver \<Rightarrow> QuadraticCostApproximation list list \<Rightarrow> bool" where
  "own_costs_present sv quadraticization \<longleftrightarrow>
     (\<forall>k\<in>{..<m_num_time_steps sv - 1}. own_costs (m_dynamics sv) (quadraticization ! k))"

definition symmetric_costs :: "QuadraticCostApproximation list list \<Rightarrow> bool" where
  "symmetric_costs quadraticization \<longleftrightarrow>
     (\<forall>quad\<in>set quadraticization. \<forall>q\<in>set quad.
        symmetric (hess (state q))
        \<and> (\<forall>entry\<in>set (control q). symmetric (hess (snd entry))))"

text \<open>
  What holds of the solver and the strategies between two steps of the backward pass of
  a solver over dynamics \<open>d\<close> with \<open>K\<close> time steps.
\<close>

definition pass_invariant ::
  "MultiPlayerIntegrableSystem \<Rightarrow> nat \<Rightarrow> LQFeedbackSolver \<times> Strategy list \<Rightarrow> bool" where
  "pass_invariant d K st \<longleftrightarrow>
     m_dynamics (fst st) = d \<and> m_num_time_steps (fst st) = K
     \<and> wf_values d (m_Zs (fst st)) (m_zetas (fst st))
     \<and> length (snd st) = NumPlayers d
     \<and> (\<forall>s\<in>set (snd st). length (Ps s) = K \<and> length (alphas s) = K)"


section \<open>Example problems\<close>

text \<open>A matrix given by its rows.\<close>

definition mat_of_rows :: "real list list \<Rightarrow> mat" where
  "mat_of_rows rs = Mat (length rs) (length (hd rs)) (\<lambda>i j. rs ! i ! j)"

text \<open>
  The exact solution of a \<open>2 \<times> 2\<close> system by Cramer's rule and of a \<open>1 \<times> 1\<close> system by
  division; on a regular system this is what the QR solve returns up to rounding.
\<close>

definition solve_2x2 :: "mat \<Rightarrow> mat \<Rightarrow> mat" where
  "solve_2x2 S Y =
     (let det = ent S 0 0 * ent S 1 1 - ent S 0 1 * ent S 1 0 in
      Mat 2 (ncols Y)
        (\<lambda>i j. if i = 0 then (ent S 1 1 * ent Y 0 j - ent S 0 1 * ent Y 1 j) / det
               else (ent S 0 0 * ent Y 1 j - ent S 1 0 * ent Y 0 j) / det))"

definition solve_1x1 :: "mat \<Rightarrow> mat \<Rightarrow> mat" where
  "solve_1x1 S Y = Mat 1 (ncols Y) (\<lambda>i j. ent Y 0 j / ent S 0 0)"

text \<open>
  The two-player point mass of the solver's unit test: time step \<open>1 / 10\<close>, and the
  linearization and quadraticization that the test repeats at every time step.
\<close>

definition point_mass :: MultiPlayerIntegrableSystem where
  "point_mass = \<lparr>NumPlayers = 2, XDim = 2, UDim = (\<lambda>ii. 1)\<rparr>"

definition point_mass_lin :: LinearDynamicsApproximation where
  "point_mass_lin =
     \<lparr>A = mat_of_rows [ [1, 1 / 10], [0, 1] ],
      Bs = [mat_of_rows [ [5 / 1000], [1 / 10] ], mat_of_rows [ [32 / 10000], [11 / 1000] ] ]\<rparr>"

definition point_mass_quad :: "QuadraticCostApproximation list" where
  "point_mass_quad =
     [\<lparr>state = \<lparr>hess = mat_of_rows [ [1, 0], [0, 1] ], grad = mat_of_rows [ [0], [0] ]\<rparr>,
       control = [(0, \<lparr>hess = mat_of_rows [ [1] ], grad = mat_of_rows [ [0] ]\<rparr>),
                  (1, \<lparr>hess = mat_of_rows [ [1 / 2] ], grad = mat_of_rows [ [0] ]\<rparr>)]\<rparr>,
      \<lparr>state = \<lparr>hess = mat_of_rows [ [2, 0], [0, 2] ], grad = mat_of_rows [ [0], [0] ]\<rparr>,
       control = [(0, \<lparr>hess = mat_of_rows [ [1 / 4] ], grad = mat_of_rows [ [0] ]\<rparr>),
                  (1, \<lparr>hess = mat_of_rows [ [1] ], grad = mat_of_rows [ [0] ]\<rparr>)]\<rparr>]"

text \<open>
  A single player with two states and one control, whose state cost at the middle one
  of three time steps has a Hessian that is not symmetric.
\<close>

definition single_player :: MultiPlayerIntegrableSystem where
  "single_player = \<lparr>NumPlayers = 1, XDim = 2, UDim = (\<lambda>ii. 1)\<rparr>"

definition single_lin :: LinearDynamicsApproximation where
  "single_lin = \<lparr>A = mat_of_rows [ [1, 0], [0, 1] ], Bs = [mat_of_rows [ [0], [1] ] ]\<rparr>"

definition single_quad :: "mat \<Rightarrow> QuadraticCostApproximation list" where
  "single_quad Q =
     [\<lparr>state = \<lparr>hess = Q, grad = mat_of_rows [ [0], [0] ]\<rparr>,
       control = [(0, \<lparr>hess = mat_of_rows [ [1] ], grad = mat_of_rows [ [0] ]\<rparr>)]\<rparr>]"

definition skewed_quads :: "QuadraticCostApproximation list list" where
  "skewed_quads =
     [single_quad (mat_of_rows [ [1, 0], [0, 1] ]),
      single_quad (mat_of_rows [ [1, 1], [0, 1] ]),
      single_quad (mat_of_rows [ [1, 0], [0, 1] ])]"

text \<open>For every player, whether its \<open>Z\<close> is symmetric; and the lengths of its strategy.\<close>

definition Zs_symmetric :: "LQFeedbackSolver \<times> Strategy list \<Rightarrow> bool list" where
  "Zs_symmetric st = map symmetric (m_Zs (fst st))"

definition strategy_lengths :: "LQFeedbackSolver \<times> Strategy list \<Rightarrow> (nat \<times> nat) list" where
  "strategy_lengths st = map (\<lambda>s. (length (Ps s), length (alphas s))) (snd st)"

text \<open>The entries of every player's \<open>Z\<close>, row by row.\<close>

definition rows_of :: "mat \<Rightarrow> real list list" where
  "rows_of M = map (\<lambda>i. map (\<lambda>j. ent M i j) [0..<ncols M]) [0..<nrows M]"

definition Zs_rows :: "LQFeedbackSolver \<times> Strategy list \<Rightarrow> real list list list" where
  "Zs_rows st = map rows_of (m_Zs (fst st))"

definition S_Y_rows :: "LQFeedbackSolver \<times> Strategy list \<Rightarrow> real list list \<times> real list list" where
  "S_Y_rows st = (rows_of (m_S (fst st)), rows_of (m_Y (fst st)))"

definition F_rows :: "LQFeedbackSolver \<times> Strategy list \<Rightarrow> real list list" where
  "F_rows st = rows_of (m_F (fst st))"

text \<open>
  The point mass over three time steps, and the same problem with the second player's
  own control cost missing at the middle time step.
\<close>

definition point_mass_solver :: LQFeedbackSolver where
  "point_mass_solver = LQFeedbackSolver_ctor point_mass 3"

definition point_mass_lins :: "LinearDynamicsApproximation list" where
  "point_mass_lins = replicate 3 point_mass_lin"

definition point_mass_quads :: "QuadraticCostApproximation list list" where
  "point_mass_quads = replicate 3 point_mass_quad"

definition point_mass_quad_missing :: "QuadraticCostApproximation list" where
  "point_mass_quad_missing =
     [point_mass_quad ! 0,
      \<lparr>state = \<lparr>hess = mat_of_rows [ [2, 0], [0, 2] ], grad = mat_of_rows [ [0], [0] ]\<rparr>,
       control = [(0, \<lparr>hess = mat_of_rows [ [1 / 4] ], grad = mat_of_rows [ [0] ]\<rparr>)]\<rparr>]"

definition point_mass_quads_missing :: "QuadraticCostApproximation list list" where
  "point_mass_quads_missing = [point_mass_quad, point_mass_quad_missing, point_mass_quad]"


section \<open>Properties of the error results\<close>

lemma and_then_Inr [simp]: "and_then (Inr v) f = f v"
  by (simp add: and_then_def)

lemma and_then_Inl [simp]: "and_then (Inl e) f = Inl e"
  by (simp add: and_then_def)

lemma and_then_Inr_iff: "and_then m f = Inr v \<longleftrightarrow> (\<exists>u. m = Inr u \<and> f u = Inr v)"
  by (cases m) simp_all

lemma and_then_assoc: "and_then (and_then m f) g = and_then m (\<lambda>v. and_then (f v) g)"
  by (cases m) simp_all

lemma index_simp [simp]: "i < length xs \<Longrightarrow> index xs i = Inr (xs ! i)"
  by (simp add: index_def)

lemma index_Inr: "index xs i = Inr v \<longleftrightarrow> i < length xs \<and> v = xs ! i"
  by (auto simp: index_def)


section \<open>Properties of ControlSliders\<close>

lemma sint_ucast_of_nat:
  assumes "k < 2 ^ 31"
  shows "sint (ucast (of_nat k :: size_t) :: cint) = int k"
proof -
  have u: "unat (of_nat k :: size_t) = k"
    using assms by (simp add: unat_of_nat)
  have "(ucast (of_nat k :: size_t) :: cint) = of_nat (unat (of_nat k :: size_t))"
    by simp
  then have e: "(ucast (of_nat k :: size_t) :: cint) = word_of_int (int k)"
    using u by simp
  have "sint (word_of_int (int k) :: cint) = int k"
    using assms int_word_sint [where 'a = 32, of "int k"] by simp
  then show ?thesis
    unfolding e .
qed

lemma ucast_minus_one: "(ucast (- 1 :: size_t) :: cint) = - 1"
  by (rule bit_word_eqI) (auto simp: bit_simps)

lemma sint_cast_pred:
  assumes "unat (w :: size_t) \<le> 2 ^ 31"
  shows "sint (static_cast_int (w - 1)) = int (unat w) - 1"
proof (cases "w = 0")
  case True
  then show ?thesis
    by (simp add: static_cast_int_def ucast_minus_one)
next
  case False
  then have pos: "1 \<le> unat w"
    by (simp add: unat_gt_0 Suc_leI)
  have "w - 1 = of_nat (unat w) - 1"
    by simp
  also have "\<dots> = of_nat (unat w - 1)"
    using pos by (simp add: of_nat_diff)
  finally have e: "w - 1 = of_nat (unat w - 1)" .
  have "unat w - 1 < 2 ^ 31"
    using assms pos by simp
  then have "sint (ucast (of_nat (unat w - 1) :: size_t) :: cint) = int (unat w - 1)"
    by (rule sint_ucast_of_nat)
  then have "sint (static_cast_int (w - 1)) = int (unat w - 1)"
    by (simp only: static_cast_int_def e)
  moreover have "int (unat w - 1) = int (unat w) - 1"
    using pos by linarith
  ultimately show ?thesis
    by (simp only:)
qed

lemma unat_size:
  assumes "length xs \<le> 2 ^ 31"
  shows "unat (size xs) = length xs"
  using assms by (simp add: size_def unat_of_nat)

lemma sint_std_min_int: "sint (std_min_int a b) = min (sint a) (sint b)"
  by (simp add: std_min_int_def min_def)

lemma sint_LogIndex:
  assumes "length (m_logs cs) \<le> 2 ^ 31"
  shows "sint (LogIndex cs) = min (sint (m_log_index cs)) (int (length (m_logs cs)) - 1)"
  using assms sint_cast_pred [of "size (m_logs cs)"]
  by (simp add: LogIndex_def sint_std_min_int unat_size)

text \<open>
  Claim C10, as stated, at a slider state whose raw log index is negative: the accessor
  returns the negative index unchanged, which is no index into the list of logs.
\<close>

theorem LogIndex_negative_counterexample:
  "\<not> (0 \<le> sint (LogIndex sliders_negative)
      \<and> nat (sint (LogIndex sliders_negative)) < length (m_logs sliders_negative))"
  by (simp add: LogIndex_def sliders_negative_def std_min_int_def static_cast_int_def size_def)

text \<open>
  Claim C10, amended: the accessors clamp from above only. For a non-empty list of at
  most \<open>2 ^ 31\<close> logs, \<open>LogIndex\<close> is a valid index exactly when the raw log index is
  not negative. In that case \<open>SolverIterate\<close> and \<open>InterpolationTime\<close> read the selected
  log; \<open>SolverIterate\<close> is at most \<open>NumIterates - 1\<close> of that log (for at most \<open>2 ^ 31\<close>
  iterates), and \<open>InterpolationTime\<close> is at least \<open>InitialTime\<close>, and at most \<open>FinalTime\<close>
  when the log's initial time does not exceed its final time.
\<close>

theorem ControlSliders_accessors_clamp_above:
  assumes "m_logs cs \<noteq> []" and "length (m_logs cs) \<le> 2 ^ 31"
  shows "((0 \<le> sint (LogIndex cs) \<and> nat (sint (LogIndex cs)) < length (m_logs cs))
            \<longleftrightarrow> 0 \<le> sint (m_log_index cs))
       \<and> (0 \<le> sint (m_log_index cs) \<longrightarrow>
            (\<exists>it v. SolverIterate cs = Inr it \<and> InterpolationTime cs = Inr v
              \<and> (unat (NumIterates (m_logs cs ! nat (sint (LogIndex cs)))) \<le> 2 ^ 31 \<longrightarrow>
                   sint it \<le> int (unat (NumIterates (m_logs cs ! nat (sint (LogIndex cs))))) - 1)
              \<and> InitialTime (m_logs cs ! nat (sint (LogIndex cs))) \<le> v
              \<and> (InitialTime (m_logs cs ! nat (sint (LogIndex cs)))
                     \<le> FinalTime (m_logs cs ! nat (sint (LogIndex cs))) \<longrightarrow>
                   v \<le> FinalTime (m_logs cs ! nat (sint (LogIndex cs))))))"
proof -
  have len: "1 \<le> length (m_logs cs)"
    using assms(1) by (cases "m_logs cs") auto
  have li: "sint (LogIndex cs) = min (sint (m_log_index cs)) (int (length (m_logs cs)) - 1)"
    using assms(2) by (rule sint_LogIndex)
  have valid: "(0 \<le> sint (LogIndex cs) \<and> nat (sint (LogIndex cs)) < length (m_logs cs))
                 \<longleftrightarrow> 0 \<le> sint (m_log_index cs)"
    using len unfolding li by auto
  have rest: "\<exists>it v. SolverIterate cs = Inr it \<and> InterpolationTime cs = Inr v
              \<and> (unat (NumIterates (m_logs cs ! nat (sint (LogIndex cs)))) \<le> 2 ^ 31 \<longrightarrow>
                   sint it \<le> int (unat (NumIterates (m_logs cs ! nat (sint (LogIndex cs))))) - 1)
              \<and> InitialTime (m_logs cs ! nat (sint (LogIndex cs))) \<le> v
              \<and> (InitialTime (m_logs cs ! nat (sint (LogIndex cs)))
                     \<le> FinalTime (m_logs cs ! nat (sint (LogIndex cs))) \<longrightarrow>
                   v \<le> FinalTime (m_logs cs ! nat (sint (LogIndex cs))))"
    if nonneg: "0 \<le> sint (m_log_index cs)"
  proof -
    have ok: "0 \<le> sint (LogIndex cs) \<and> nat (sint (LogIndex cs)) < length (m_logs cs)"
      using valid nonneg by simp
    then have sub: "subscript (m_logs cs) (LogIndex cs)
                      = Inr (m_logs cs ! nat (sint (LogIndex cs)))"
      by (simp add: subscript_def)
    show ?thesis
      using sint_cast_pred [of "NumIterates (m_logs cs ! nat (sint (LogIndex cs)))"]
      by (auto simp: SolverIterate_def InterpolationTime_def sub sint_std_min_int
            std_min_def std_max_def)
  qed
  show ?thesis
    using valid rest by blast
qed

theorem ControlSliders_accessors_clamp_above_witness:
  "m_logs sliders_large \<noteq> [] \<and> length (m_logs sliders_large) \<le> 2 ^ 31
     \<and> 0 \<le> sint (m_log_index sliders_large)
     \<and> sint (LogIndex sliders_large) = 0
     \<and> (\<exists>it v. SolverIterate sliders_large = Inr it
            \<and> InterpolationTime sliders_large = Inr v
            \<and> sint it \<le> 4 \<and> 0 \<le> v \<and> v \<le> 10)"
proof -
  have a: "m_logs sliders_large \<noteq> []" and b: "length (m_logs sliders_large) \<le> 2 ^ 31"
    and c: "0 \<le> sint (m_log_index sliders_large)"
    by (simp_all add: sliders_large_def)
  have li: "LogIndex sliders_large = 0"
    by (simp add: LogIndex_def sliders_large_def std_min_int_def static_cast_int_def size_def)
  have sel: "m_logs sliders_large ! nat (sint (LogIndex sliders_large)) = example_log"
    unfolding li by (simp add: sliders_large_def)
  have d: "unat (NumIterates example_log) = 5" "InitialTime example_log = 0"
    "FinalTime example_log = 10"
    by (simp_all add: example_log_def)
  from ControlSliders_accessors_clamp_above [OF a b] c
  obtain it v where "SolverIterate sliders_large = Inr it"
    and "InterpolationTime sliders_large = Inr v"
    and "sint it \<le> 4" and "0 \<le> v" and "v \<le> 10"
    unfolding sel d by auto
  then have "\<exists>it v. SolverIterate sliders_large = Inr it
            \<and> InterpolationTime sliders_large = Inr v
            \<and> sint it \<le> 4 \<and> 0 \<le> v \<and> v \<le> 10"
    by blast
  moreover have "sint (LogIndex sliders_large) = 0"
    unfolding li by simp
  ultimately show ?thesis
    using a b c by blast
qed


section \<open>Properties of RecedingHorizonSimulator\<close>




text \<open>
  Claim C6: every solver call inside the loop is timed, and the iteration goes on exactly
  when the elapsed time is at most \<open>planner_runtime\<close>. When the elapsed time exceeds
  \<open>planner_runtime\<close>, the iteration stops at the failed \<^verbatim>\<open>CHECK_LE\<close> and so does the whole
  loop: nothing is integrated or spliced with the late solution.
\<close>

theorem deadline_exceeded_is_fatal:
  "((\<exists>s'. iteration W planner_runtime s = Inr s')
       \<longleftrightarrow> now W (Suc (sim_clock s)) - now W (sim_clock s) \<le> planner_runtime)
   \<and> (iteration W planner_runtime s = Inl (CheckFailed ElapsedTime)
       \<longleftrightarrow> planner_runtime < now W (Suc (sim_clock s)) - now W (sim_clock s))
   \<and> (sim_t s < final_time
        \<and> planner_runtime < now W (Suc (sim_clock s)) - now W (sim_clock s)
       \<longrightarrow> while_loop W final_time planner_runtime s = Some (Inl (CheckFailed ElapsedTime)))"
proof -
  have a: "(\<exists>s'. iteration W planner_runtime s = Inr s')
       \<longleftrightarrow> now W (Suc (sim_clock s)) - now W (sim_clock s) \<le> planner_runtime"
    by (simp add: iteration_def Let_def split: prod.splits)
  have b: "iteration W planner_runtime s = Inl (CheckFailed ElapsedTime)
       \<longleftrightarrow> planner_runtime < now W (Suc (sim_clock s)) - now W (sim_clock s)"
    by (auto simp: iteration_def Let_def split: prod.splits)
  have c: "while_loop W final_time planner_runtime s = Some (Inl (CheckFailed ElapsedTime))"
    if "sim_t s < final_time"
      and "planner_runtime < now W (Suc (sim_clock s)) - now W (sim_clock s)"
    using that b by (subst while_loop.simps) simp
  show ?thesis
    using a b c by blast
qed

theorem deadline_exceeded_is_fatal_witness:
  "sim_t toy_start < 1
   \<and> 1 / 100 < now toy_world (Suc (sim_clock toy_start)) - now toy_world (sim_clock toy_start)
   \<and> while_loop toy_world 1 (1 / 100) toy_start = Some (Inl (CheckFailed ElapsedTime))"
proof -
  have a: "sim_t toy_start < 1"
    by (simp add: toy_start_def)
  have b: "1 / 100 < now toy_world (Suc (sim_clock toy_start)) - now toy_world (sim_clock toy_start)"
    by (simp add: toy_start_def toy_world_def)
  show ?thesis
    using deadline_exceeded_is_fatal [of toy_world "1 / 100" toy_start 1] a b by blast
qed

text \<open>
  Claim C7: an iteration whose solve met the deadline sets up and solves the next problem
  with deadline \<open>planner_runtime\<close>, integrates the state over the measured solve time
  \<open>e\<close> under the plan the splicer held before, splices the new log at time \<open>t + e\<close>,
  overwrites the problem's solution with the spliced plan, and integrates for a further
  tenth of a second under the spliced plan, leaving the time at \<open>t + e + 1 / 10\<close>.
\<close>

theorem iteration_order:
  assumes "now W (Suc (sim_clock s)) - now W (sim_clock s) \<le> planner_runtime"
  shows "iteration W planner_runtime s =
     (let (log, solved) =
            Problem_Solve W (Some planner_runtime)
              (SetUpNextRecedingHorizon W (sim_x s) (sim_t s) planner_runtime (sim_problem s));
          e = now W (Suc (sim_clock s)) - now W (sim_clock s);
          x_solve = Integrate W (sim_t s) (sim_t s + e) (sim_x s)
                      (CurrentOperatingPoint W (sim_splicer s))
                      (CurrentStrategies W (sim_splicer s));
          spliced = Splice W log (sim_t s + e) (sim_splicer s);
          overwritten = OverwriteSolution W (CurrentOperatingPoint W spliced)
                          (CurrentStrategies W spliced) solved;
          x_extra = Integrate W (sim_t s + e) (sim_t s + e + 1 / 10) x_solve
                      (CurrentOperatingPoint W spliced) (CurrentStrategies W spliced)
      in Inr \<lparr>sim_x = x_extra, sim_t = sim_t s + e + 1 / 10, sim_logs = sim_logs s @ [log],
              sim_problem = overwritten, sim_splicer = spliced,
              sim_clock = Suc (Suc (sim_clock s))\<rparr>)"
  using assms by (simp add: iteration_def Let_def kExtraTime_def split: prod.splits)

theorem iteration_order_witness:
  "now toy_world (Suc (sim_clock toy_start)) - now toy_world (sim_clock toy_start) \<le> 1 / 10
   \<and> iteration toy_world (1 / 10) toy_start =
       Inr \<lparr>sim_x = 3 / 20, sim_t = 3 / 20, sim_logs = [0, 1 / 10], sim_problem = 1 / 10,
            sim_splicer = [0, 1 / 10], sim_clock = 4\<rparr>"
proof -
  have a: "now toy_world (Suc (sim_clock toy_start)) - now toy_world (sim_clock toy_start) \<le> 1 / 10"
    by (simp add: toy_start_def toy_world_def)
  show ?thesis
    using iteration_order [OF a] a
    by (simp add: toy_start_def toy_world_def)
qed




section \<open>Properties of the matrices and of every loop of LQFeedbackSolver\<close>

lemma dims_simps [simp]:
  "nrows (transpose_mat M) = ncols M" "ncols (transpose_mat M) = nrows M"
  "nrows (mat_mul M N) = nrows M" "ncols (mat_mul M N) = ncols N"
  "nrows (mat_add M N) = nrows M" "ncols (mat_add M N) = ncols M"
  "nrows (mat_sub M N) = nrows M" "ncols (mat_sub M N) = ncols M"
  "nrows (Zero_mat r c) = r" "ncols (Zero_mat r c) = c"
  "nrows (block M i j p q) = p" "ncols (block M i j p q) = q"
  "nrows (assign_block M i j p q V) = nrows M" "ncols (assign_block M i j p q V) = ncols M"
  by (simp_all add: transpose_mat_def mat_mul_def mat_add_def mat_sub_def Zero_mat_def
        block_def assign_block_def)

lemma ent_simps [simp]:
  "ent (transpose_mat M) i j = ent M j i"
  "ent (mat_add M N) i j = ent M i j + ent N i j"
  "ent (mat_sub M N) i j = ent M i j - ent N i j"
  "ent (Zero_mat r c) i j = 0"
  "ent (block M a b p q) i j = ent M (a + i) (b + j)"
  by (simp_all add: transpose_mat_def mat_add_def mat_sub_def Zero_mat_def block_def)

lemma ent_mat_mul: "ent (mat_mul M N) i j = (\<Sum>k<ncols M. ent M i k * ent N k j)"
  by (simp add: mat_mul_def)

lemma ent_assign_block:
  "ent (assign_block M i j p q V) r c =
     (if i \<le> r \<and> r < i + p \<and> j \<le> c \<and> c < j + q then ent V (r - i) (c - j) else ent M r c)"
  by (simp add: assign_block_def)

lemma cumulative_udim_0 [simp]: "cumulative_udim d 0 = 0"
  by (simp add: cumulative_udim_def)

lemma cumulative_udim_Suc [simp]:
  "cumulative_udim d (Suc i) = cumulative_udim d i + UDim d i"
  by (simp add: cumulative_udim_def)

lemma cumulative_udim_mono: "i \<le> j \<Longrightarrow> cumulative_udim d i \<le> cumulative_udim d j"
  by (induction j) (auto simp: le_Suc_eq)

lemma cumulative_udim_Suc_le: "i < j \<Longrightarrow> cumulative_udim d i + UDim d i \<le> cumulative_udim d j"
  using cumulative_udim_mono [of "Suc i" j d] by simp

lemma S_row_loop_frame:
  assumes "S_row_loop d lin quad BiZi ii crow jjs ccol S = Inr S'"
  shows "nrows S' = nrows S \<and> ncols S' = ncols S
       \<and> (\<forall>r c. r < crow \<or> crow + UDim d ii \<le> r \<or> c < ccol \<longrightarrow> ent S' r c = ent S r c)"
  using assms
proof (induction jjs arbitrary: ccol S)
  case Nil
  then show ?case by simp
next
  case (Cons jj jjs)
  from Cons.prems obtain V where V: "S_block_value lin quad BiZi ii jj = Inr V"
    and rec: "S_row_loop d lin quad BiZi ii crow jjs (ccol + UDim d jj)
                (assign_block S crow ccol (UDim d ii) (UDim d jj) V) = Inr S'"
    by (auto split: sum.splits)
  from Cons.IH [OF rec] show ?case
    by (auto simp: ent_assign_block)
qed

lemma S_row_loop_blocks:
  assumes "S_row_loop d lin quad BiZi ii crow [a..<n] (cumulative_udim d a) S = Inr S'"
    and "a \<le> jj" and "jj < n"
  shows "\<exists>V. S_block_value lin quad BiZi ii jj = Inr V
           \<and> (\<forall>r<UDim d ii. \<forall>c<UDim d jj.
                 ent S' (crow + r) (cumulative_udim d jj + c) = ent V r c)"
  using assms
proof (induction "n - a" arbitrary: a S)
  case 0
  then show ?case by simp
next
  case (Suc k)
  then have an: "a < n" by simp
  then have upt: "[a..<n] = a # [Suc a..<n]"
    by (simp add: upt_conv_Cons)
  from Suc.prems(1) obtain V where V: "S_block_value lin quad BiZi ii a = Inr V"
    and rec: "S_row_loop d lin quad BiZi ii crow [Suc a..<n] (cumulative_udim d (Suc a))
                (assign_block S crow (cumulative_udim d a) (UDim d ii) (UDim d a) V) = Inr S'"
    unfolding upt by (auto split: sum.splits)
  show ?case
  proof (cases "jj = a")
    case True
    have "ent S' (crow + r) (cumulative_udim d a + c) = ent V r c"
      if "r < UDim d ii" "c < UDim d a" for r c
    proof -
      have "ent S' (crow + r) (cumulative_udim d a + c)
              = ent (assign_block S crow (cumulative_udim d a) (UDim d ii) (UDim d a) V)
                  (crow + r) (cumulative_udim d a + c)"
        using S_row_loop_frame [OF rec] that by simp
      then show ?thesis
        using that by (simp add: ent_assign_block)
    qed
    then show ?thesis
      using V True by blast
  next
    case False
    then have "Suc a \<le> jj" using Suc.prems(2) by simp
    moreover have "k = n - Suc a" using Suc.hyps(2) by simp
    ultimately show ?thesis
      using Suc.hyps(1) [OF _ rec _ Suc.prems(3)] by blast
  qed
qed


lemma S_row_loop_returns:
  assumes "\<forall>jj\<in>set jjs. jj < length (Bs lin)" and "ii < length quad"
    and "ii < length (Bs lin)" and "map_of (control (quad ! ii)) ii \<noteq> None"
  shows "\<exists>S'. S_row_loop d lin quad BiZi ii crow jjs ccol S = Inr S'"
  using assms(1)
proof (induction jjs arbitrary: ccol S)
  case Nil
  then show ?case by simp
next
  case (Cons jj jjs)
  have "\<exists>V. S_block_value lin quad BiZi ii jj = Inr V"
    using Cons.prems assms(2-4) by (auto simp: S_block_value_def)
  then show ?case
    using Cons by auto
qed

lemma S_block_value_spec:
  assumes "S_block_value lin quad (mat_mul (transpose_mat (Bs lin ! ii)) (Zs ! ii)) ii jj = Inr V"
  shows "V = spec_S_block lin quad Zs ii jj"
  using assms
  by (auto simp: S_block_value_def spec_S_block_def Rij_def and_then_Inr_iff index_Inr
           split: if_splits option.splits)

lemma mat_eq_blockI:
  assumes "nrows V = p" and "ncols V = q"
    and "\<And>r c. r < p \<Longrightarrow> c < q \<Longrightarrow> ent M (i + r) (j + c) = ent V r c"
  shows "mat_eq (block M i j p q) V"
  using assms by (simp add: mat_eq_def)

lemma mat_eq_blockD:
  assumes "mat_eq (block M i j p q) V" and "r < p" and "c < q"
  shows "ent M (i + r) (j + c) = ent V r c"
  using assms by (simp add: mat_eq_def)

lemma mat_eq_block_cong:
  assumes "mat_eq (block M i j p q) V"
    and "\<And>r c. r < p \<Longrightarrow> c < q \<Longrightarrow> ent M' (i + r) (j + c) = ent M (i + r) (j + c)"
  shows "mat_eq (block M' i j p q) V"
  using assms by (simp add: mat_eq_def)

lemma populate_player_result:
  assumes lin: "wf_lin d lin" and quad: "wf_quad d quad" and own: "ii \<in> control_players quad ii"
    and vals: "wf_values d Zs zetas" and ii: "ii < NumPlayers d"
  shows "\<exists>S' Y'. populate_player d lin quad Zs zetas ii (cumulative_udim d ii) (S, Y) = Inr (S', Y')
           \<and> nrows S' = nrows S \<and> ncols S' = ncols S \<and> nrows Y' = nrows Y \<and> ncols Y' = ncols Y
           \<and> (\<forall>r c. r < cumulative_udim d ii \<or> cumulative_udim d (Suc ii) \<le> r \<longrightarrow>
                 ent S' r c = ent S r c \<and> ent Y' r c = ent Y r c)
           \<and> row_populated d lin quad Zs zetas ii S' Y'"
proof -
  let ?crow = "cumulative_udim d ii"
  let ?BiZi = "mat_mul (transpose_mat (Bs lin ! ii)) (Zs ! ii)"
  have len: "ii < length (Bs lin)" "ii < length Zs" "ii < length zetas" "ii < length quad"
    using lin quad vals ii by (simp_all add: wf_lin_def wf_quad_def wf_values_def)
  have ownii: "map_of (control (quad ! ii)) ii \<noteq> None"
    using own by (simp add: control_players_def map_of_eq_None_iff)
  then obtain cii where cii: "map_of (control (quad ! ii)) ii = Some cii"
    by blast
  have alljj: "\<forall>jj\<in>set [0..<NumPlayers d]. jj < length (Bs lin)"
    using lin by (simp add: wf_lin_def)
  obtain S' where S': "S_row_loop d lin quad ?BiZi ii ?crow [0..<NumPlayers d] 0 S = Inr S'"
    using S_row_loop_returns [OF alljj len(4) len(1) ownii] by blast
  define Y' where "Y' = assign_block (assign_block Y ?crow 0 (UDim d ii) (XDim d) (mat_mul ?BiZi (A lin)))
                          ?crow (XDim d) (UDim d ii) 1
                          (mat_add (mat_mul (transpose_mat (Bs lin ! ii)) (zetas ! ii)) (grad cii))"
  have run: "populate_player d lin quad Zs zetas ii ?crow (S, Y) = Inr (S', Y')"
    using len S' cii by (simp add: populate_player_def Let_def Y'_def)
  have frameS: "nrows S' = nrows S \<and> ncols S' = ncols S
       \<and> (\<forall>r c. r < ?crow \<or> ?crow + UDim d ii \<le> r \<or> c < 0 \<longrightarrow> ent S' r c = ent S r c)"
    by (rule S_row_loop_frame [OF S'])
  have frame: "\<forall>r c. r < ?crow \<or> cumulative_udim d (Suc ii) \<le> r \<longrightarrow>
                 ent S' r c = ent S r c \<and> ent Y' r c = ent Y r c"
    using frameS by (auto simp: Y'_def ent_assign_block)
  have dimsB: "nrows (Bs lin ! j) = XDim d \<and> ncols (Bs lin ! j) = UDim d j" if "j < NumPlayers d" for j
    using lin that by (simp add: wf_lin_def)
  have wfq: "wf_cost d (quad ! ii)"
    using quad len(4) by (simp add: wf_quad_def)
  have cii_in: "(ii, cii) \<in> set (control (quad ! ii))"
    using cii by (rule map_of_SomeD)
  have dimsc: "nrows (hess cii) = UDim d ii \<and> ncols (hess cii) = UDim d ii
               \<and> nrows (grad cii) = UDim d ii \<and> ncols (grad cii) = 1"
    using wfq cii_in by (auto simp: wf_cost_def)
  have Sblocks: "mat_eq (block S' ?crow (cumulative_udim d j) (UDim d ii) (UDim d j))
                   (spec_S_block lin quad Zs ii j)" if j: "j < NumPlayers d" for j
  proof -
    from S_row_loop_blocks [of d lin quad ?BiZi ii ?crow 0 "NumPlayers d" S S' j] S' j
    obtain V where V: "S_block_value lin quad ?BiZi ii j = Inr V"
      and e: "\<forall>r<UDim d ii. \<forall>c<UDim d j. ent S' (?crow + r) (cumulative_udim d j + c) = ent V r c"
      by auto
    have Vs: "V = spec_S_block lin quad Zs ii j"
      using V by (rule S_block_value_spec)
    have "nrows (spec_S_block lin quad Zs ii j) = UDim d ii"
      "ncols (spec_S_block lin quad Zs ii j) = UDim d j"
      using dimsB [OF ii] dimsB [OF j] by (simp_all add: spec_S_block_def)
    then show ?thesis
      using e unfolding Vs by (intro mat_eq_blockI) auto
  qed
  have Ystate: "mat_eq (block Y' ?crow 0 (UDim d ii) (XDim d)) (spec_Y_state lin Zs ii)"
    using dimsB [OF ii] lin
    by (intro mat_eq_blockI) (auto simp: spec_Y_state_def Y'_def ent_assign_block wf_lin_def)
  have rii: "rij quad ii ii = grad cii"
    by (simp add: rij_def cii)
  have zdim: "ncols (zetas ! ii) = 1"
    using vals len(3) by (simp add: wf_values_def)
  have Ylast: "mat_eq (block Y' ?crow (XDim d) (UDim d ii) 1) (spec_Y_last lin quad zetas ii)"
    using dimsB [OF ii] zdim
    by (intro mat_eq_blockI) (auto simp: spec_Y_last_def rii Y'_def ent_assign_block)
  have "row_populated d lin quad Zs zetas ii S' Y'"
    using Sblocks Ystate Ylast by (simp add: row_populated_def)
  moreover have "nrows Y' = nrows Y \<and> ncols Y' = ncols Y"
    by (simp add: Y'_def)
  ultimately show ?thesis
    using run frameS frame by blast
qed

lemma row_populated_frame:
  assumes "row_populated d lin quad Zs zetas i S Y"
    and "\<And>r c. cumulative_udim d i \<le> r \<Longrightarrow> r < cumulative_udim d (Suc i) \<Longrightarrow>
            ent S' r c = ent S r c \<and> ent Y' r c = ent Y r c"
  shows "row_populated d lin quad Zs zetas i S' Y'"
  using assms(1) unfolding row_populated_def
  by (auto intro!: mat_eq_block_cong [where M = S and M' = S']
                   mat_eq_block_cong [where M = Y and M' = Y'] simp: assms(2))

lemma populate_loop_result:
  assumes lin: "wf_lin d lin" and quad: "wf_quad d quad" and own: "own_costs d quad"
    and vals: "wf_values d Zs zetas" and an: "a \<le> NumPlayers d"
  shows "\<exists>S' Y'. populate_loop d lin quad Zs zetas [a..<NumPlayers d] (cumulative_udim d a) (S, Y)
                    = Inr (S', Y')
           \<and> nrows S' = nrows S \<and> ncols S' = ncols S \<and> nrows Y' = nrows Y \<and> ncols Y' = ncols Y
           \<and> (\<forall>r c. r < cumulative_udim d a \<longrightarrow> ent S' r c = ent S r c \<and> ent Y' r c = ent Y r c)
           \<and> (\<forall>i. a \<le> i \<and> i < NumPlayers d \<longrightarrow> row_populated d lin quad Zs zetas i S' Y')"
  using an
proof (induction "NumPlayers d - a" arbitrary: a S Y)
  case 0
  then have "a = NumPlayers d" by simp
  then show ?case by auto
next
  case (Suc k)
  then have a: "a < NumPlayers d" by simp
  then have upt: "[a..<NumPlayers d] = a # [Suc a..<NumPlayers d]"
    by (simp add: upt_conv_Cons)
  have "a \<in> control_players quad a"
    using own a by (simp add: own_costs_def)
  from populate_player_result [OF lin quad this vals a, of S Y]
  obtain S1 Y1 where p1: "populate_player d lin quad Zs zetas a (cumulative_udim d a) (S, Y) = Inr (S1, Y1)"
    and d1: "nrows S1 = nrows S" "ncols S1 = ncols S" "nrows Y1 = nrows Y" "ncols Y1 = ncols Y"
    and f1: "\<forall>r c. r < cumulative_udim d a \<or> cumulative_udim d (Suc a) \<le> r \<longrightarrow>
                 ent S1 r c = ent S r c \<and> ent Y1 r c = ent Y r c"
    and r1: "row_populated d lin quad Zs zetas a S1 Y1"
    by blast
  have k: "k = NumPlayers d - Suc a" using Suc.hyps(2) by simp
  have sa: "Suc a \<le> NumPlayers d" using a by simp
  from Suc.hyps(1) [OF k sa, of S1 Y1]
  obtain S' Y' where p2: "populate_loop d lin quad Zs zetas [Suc a..<NumPlayers d]
                            (cumulative_udim d (Suc a)) (S1, Y1) = Inr (S', Y')"
    and d2: "nrows S' = nrows S1" "ncols S' = ncols S1" "nrows Y' = nrows Y1" "ncols Y' = ncols Y1"
    and f2: "\<forall>r c. r < cumulative_udim d (Suc a) \<longrightarrow> ent S' r c = ent S1 r c \<and> ent Y' r c = ent Y1 r c"
    and r2: "\<forall>i. Suc a \<le> i \<and> i < NumPlayers d \<longrightarrow> row_populated d lin quad Zs zetas i S' Y'"
    by blast
  have run: "populate_loop d lin quad Zs zetas [a..<NumPlayers d] (cumulative_udim d a) (S, Y)
               = Inr (S', Y')"
    unfolding upt using p1 p2 by simp
  have ra: "row_populated d lin quad Zs zetas a S' Y'"
    using r1 by (rule row_populated_frame) (simp add: f2)
  have rows: "row_populated d lin quad Zs zetas i S' Y'" if "a \<le> i \<and> i < NumPlayers d" for i
    using that ra r2 by (cases "i = a") auto
  have frame: "\<forall>r c. r < cumulative_udim d a \<longrightarrow> ent S' r c = ent S r c \<and> ent Y' r c = ent Y r c"
    using f1 f2 by (auto simp: less_imp_le_nat trans_less_add1)
  show ?case
    using run d1 d2 frame rows by simp
qed

lemma mat_ext:
  assumes "nrows M = nrows N" and "ncols M = ncols N" and "\<And>i j. ent M i j = ent N i j"
  shows "M = N"
  using assms by (cases M, cases N) (auto intro: ext)

lemma more_dims [simp]:
  "nrows (mat_sum r c J f) = r" "ncols (mat_sum r c J f) = c"
  "nrows (mat_neg M) = nrows M" "ncols (mat_neg M) = ncols M"
  "nrows (P_rows d X j) = UDim d j" "ncols (P_rows d X j) = XDim d"
  "nrows (alpha_rows d X j) = UDim d j" "ncols (alpha_rows d X j) = 1"
  by (simp_all add: mat_sum_def mat_neg_def P_rows_def alpha_rows_def)

lemma more_ents [simp]:
  "ent (mat_sum r c J f) a b = (\<Sum>j\<in>J. ent (f j) a b)"
  "ent (mat_neg M) a b = - ent M a b"
  by (simp_all add: mat_sum_def mat_neg_def)

lemma m_Ps_simp [simp]: "j < NumPlayers d \<Longrightarrow> m_Ps d X j = Inr (P_rows d X j)"
  by (simp add: m_Ps_def P_rows_def)

lemma m_alphas_simp [simp]: "j < NumPlayers d \<Longrightarrow> m_alphas d X j = Inr (alpha_rows d X j)"
  by (simp add: m_alphas_def alpha_rows_def)

lemma set_strategy_loop_result:
  assumes "length strategies = NumPlayers d"
    and "\<forall>s\<in>set strategies. kk < length (Ps s) \<and> kk < length (alphas s)"
    and "a \<le> NumPlayers d"
  shows "\<exists>strategies'. set_strategy_loop d X kk [a..<NumPlayers d] strategies = Inr strategies'
           \<and> length strategies' = NumPlayers d
           \<and> (\<forall>i<NumPlayers d. strategies' ! i =
                 (if a \<le> i then \<lparr>Ps = (Ps (strategies ! i))[kk := P_rows d X i],
                                  alphas = (alphas (strategies ! i))[kk := alpha_rows d X i]\<rparr>
                  else strategies ! i))"
  using assms
proof (induction "NumPlayers d - a" arbitrary: a strategies)
  case 0
  then show ?case by auto
next
  case (Suc k)
  then have a: "a < NumPlayers d" by simp
  then have upt: "[a..<NumPlayers d] = a # [Suc a..<NumPlayers d]"
    by (simp add: upt_conv_Cons)
  let ?s1 = "strategies[a := \<lparr>Ps = (Ps (strategies ! a))[kk := P_rows d X a],
                              alphas = (alphas (strategies ! a))[kk := alpha_rows d X a]\<rparr>]"
  have ina: "strategies ! a \<in> set strategies"
    using a Suc.prems(1) by simp
  have one: "set_strategy d X kk a strategies = Inr ?s1"
    using a Suc.prems(1,2) ina by (simp add: set_strategy_def assign_index_def)
  have len1: "length ?s1 = NumPlayers d"
    using Suc.prems(1) by simp
  have wf1: "\<forall>s\<in>set ?s1. kk < length (Ps s) \<and> kk < length (alphas s)"
  proof
    fix s assume "s \<in> set ?s1"
    then have "s \<in> insert \<lparr>Ps = (Ps (strategies ! a))[kk := P_rows d X a],
                   alphas = (alphas (strategies ! a))[kk := alpha_rows d X a]\<rparr> (set strategies)"
      using set_update_subset_insert by fastforce
    then show "kk < length (Ps s) \<and> kk < length (alphas s)"
      using Suc.prems(2) ina by auto
  qed
  have k: "k = NumPlayers d - Suc a" using Suc.hyps(2) by simp
  have sa: "Suc a \<le> NumPlayers d" using a by simp
  from Suc.hyps(1) [OF k len1 wf1 sa]
  obtain strategies' where rec: "set_strategy_loop d X kk [Suc a..<NumPlayers d] ?s1 = Inr strategies'"
    and len': "length strategies' = NumPlayers d"
    and nth': "\<forall>i<NumPlayers d. strategies' ! i =
                 (if Suc a \<le> i then \<lparr>Ps = (Ps (?s1 ! i))[kk := P_rows d X i],
                                  alphas = (alphas (?s1 ! i))[kk := alpha_rows d X i]\<rparr>
                  else ?s1 ! i)"
    by blast
  have run: "set_strategy_loop d X kk [a..<NumPlayers d] strategies = Inr strategies'"
    unfolding upt using one rec by simp
  have "strategies' ! i =
                 (if a \<le> i then \<lparr>Ps = (Ps (strategies ! i))[kk := P_rows d X i],
                                  alphas = (alphas (strategies ! i))[kk := alpha_rows d X i]\<rparr>
                  else strategies ! i)" if "i < NumPlayers d" for i
    using nth' that Suc.prems(1) by (cases "i = a") (auto simp: nth_list_update)
  then show ?case
    using run len' by blast
qed

lemma F_beta_loop_result:
  assumes "NumPlayers d \<le> length (Bs lin)" and "a \<le> NumPlayers d"
  shows "F_beta_loop d lin X [a..<NumPlayers d] (F0, b0) =
           Inr (mat_sub F0 (mat_sum r c {a..<NumPlayers d} (\<lambda>j. mat_mul (Bs lin ! j) (P_rows d X j))),
                mat_sub b0 (mat_sum r' c' {a..<NumPlayers d}
                              (\<lambda>j. mat_mul (Bs lin ! j) (alpha_rows d X j))))"
  using assms(2)
proof (induction "NumPlayers d - a" arbitrary: a F0 b0)
  case 0
  then have "a = NumPlayers d" by simp
  moreover have "F0 = mat_sub F0 (mat_sum r c {} f)" for F0 r c f
    by (rule mat_ext) simp_all
  ultimately show ?case by simp
next
  case (Suc k)
  then have a: "a < NumPlayers d" by simp
  then have upt: "[a..<NumPlayers d] = a # [Suc a..<NumPlayers d]"
    by (simp add: upt_conv_Cons)
  have one: "F_beta_player d lin X a (F0, b0) =
               Inr (mat_sub F0 (mat_mul (Bs lin ! a) (P_rows d X a)),
                    mat_sub b0 (mat_mul (Bs lin ! a) (alpha_rows d X a)))"
    using a assms(1) by (simp add: F_beta_player_def)
  have k: "k = NumPlayers d - Suc a" using Suc.hyps(2) by simp
  have sa: "Suc a \<le> NumPlayers d" using a by simp
  have split: "sum g {a..<NumPlayers d} = g a + sum g {Suc a..<NumPlayers d}" for g :: "nat \<Rightarrow> real"
    using a by (simp add: sum.atLeast_Suc_lessThan)
  have e: "mat_sub (mat_sub M V) (mat_sum r c {Suc a..<NumPlayers d} f)
             = mat_sub M (mat_sum r c {a..<NumPlayers d} f)"
    if "V = f a" for M V r c f
    by (rule mat_ext) (simp_all add: that split)
  show ?case
    unfolding upt using one Suc.hyps(1) [OF k sa] by (simp add: e)
qed

lemma Rij_loop_result:
  assumes "\<forall>entry\<in>set entries. fst entry < NumPlayers d"
  shows "Rij_loop d X entries (z0, Z0) =
           Inr (mat_add z0
                  (Mat r c (\<lambda>a b. \<Sum>entry\<leftarrow>entries.
                     ent (mat_mul (transpose_mat (P_rows d X (fst entry)))
                            (mat_sub (mat_mul (hess (snd entry)) (alpha_rows d X (fst entry)))
                               (grad (snd entry)))) a b)),
                mat_add Z0
                  (Mat r' c' (\<lambda>a b. \<Sum>entry\<leftarrow>entries.
                     ent (mat_mul (mat_mul (transpose_mat (P_rows d X (fst entry))) (hess (snd entry)))
                            (P_rows d X (fst entry))) a b)))"
  using assms
proof (induction entries arbitrary: z0 Z0)
  case Nil
  have "M = mat_add M (Mat r c (\<lambda>a b. 0))" for M r c
    by (rule mat_ext) simp_all
  then show ?case by simp
next
  case (Cons entry entries)
  have one: "Rij_entry d X entry (z0, Z0) =
     Inr (mat_add z0 (mat_mul (transpose_mat (P_rows d X (fst entry)))
                        (mat_sub (mat_mul (hess (snd entry)) (alpha_rows d X (fst entry)))
                           (grad (snd entry)))),
          mat_add Z0 (mat_mul (mat_mul (transpose_mat (P_rows d X (fst entry))) (hess (snd entry)))
                        (P_rows d X (fst entry))))"
    using Cons.prems by (simp add: Rij_entry_def Let_def)
  have e: "mat_add (mat_add M V) (Mat r c (\<lambda>a b. \<Sum>x\<leftarrow>xs. ent (f x) a b))
             = mat_add M (Mat r c (\<lambda>a b. \<Sum>x\<leftarrow>y # xs. ent (f x) a b))"
    if "V = f y" for M V r c xs y and f :: "PlayerIndex \<times> SingleCostApproximation \<Rightarrow> mat"
    by (rule mat_ext) (simp_all add: that)
  show ?case
    using one Cons by (simp add: e)
qed

lemma sum_list_entries:
  assumes "distinct (map fst entries)"
  shows "(\<Sum>entry\<leftarrow>entries. g (fst entry) (snd entry))
           = (\<Sum>j\<in>set (map fst entries). g j (the (map_of entries j)))"
  using assms
proof (induction entries)
  case Nil
  then show ?case by simp
next
  case (Cons entry entries)
  obtain k v where entry: "entry = (k, v)" by (cases entry)
  have notin: "k \<notin> set (map fst entries)" and dist: "distinct (map fst entries)"
    using Cons.prems by (simp_all add: entry)
  have "(\<Sum>j\<in>set (map fst entries). g j (the (map_of (entry # entries) j)))
          = (\<Sum>j\<in>set (map fst entries). g j (the (map_of entries j)))"
    using notin by (intro sum.cong) (auto simp: entry)
  then show ?case
    using notin Cons.IH [OF dist] by (simp add: entry)
qed

lemma update_player_result:
  assumes "ii < length Zs" and "ii < length zetas" and "ii < length quad"
    and "wf_cost d (quad ! ii)"
  shows "update_player d X F beta quad ii (Zs, zetas) =
           Inr (Zs[ii := spec_Z d quad X F Zs ii], zetas[ii := spec_zeta d quad X F beta Zs zetas ii])"
proof -
  have keys: "\<forall>entry\<in>set (control (quad ! ii)). fst entry < NumPlayers d"
    and dist: "distinct (map fst (control (quad ! ii)))"
    using assms(4) by (auto simp: wf_cost_def)
  let ?zeta1 = "mat_add (mat_mul (transpose_mat F) (mat_add (zetas ! ii) (mat_mul (Zs ! ii) beta)))
                  (grad (state (quad ! ii)))"
  let ?Z1 = "mat_add (mat_mul (mat_mul (transpose_mat F) (Zs ! ii)) F) (hess (state (quad ! ii)))"
  have z: "mat_add ?zeta1
                  (Mat 0 0 (\<lambda>a b. \<Sum>entry\<leftarrow>control (quad ! ii).
                     ent (mat_mul (transpose_mat (P_rows d X (fst entry)))
                            (mat_sub (mat_mul (hess (snd entry)) (alpha_rows d X (fst entry)))
                               (grad (snd entry)))) a b))
             = spec_zeta d quad X F beta Zs zetas ii"
    unfolding spec_zeta_def control_players_def Rij_def rij_def
    by (rule mat_ext)
       (simp_all add: sum_list_entries [OF dist, where g = "\<lambda>j c.
           ent (mat_mul (transpose_mat (P_rows d X j))
                  (mat_sub (mat_mul (hess c) (alpha_rows d X j)) (grad c))) a b" for a b])
  have Z: "mat_add ?Z1
                  (Mat 0 0 (\<lambda>a b. \<Sum>entry\<leftarrow>control (quad ! ii).
                     ent (mat_mul (mat_mul (transpose_mat (P_rows d X (fst entry))) (hess (snd entry)))
                            (P_rows d X (fst entry))) a b))
             = spec_Z d quad X F Zs ii"
    unfolding spec_Z_def control_players_def Rij_def
    by (rule mat_ext)
       (simp_all add: sum_list_entries [OF dist, where g = "\<lambda>j c.
           ent (mat_mul (mat_mul (transpose_mat (P_rows d X j)) (hess c)) (P_rows d X j)) a b" for a b])
  show ?thesis
    using assms(1-3) Rij_loop_result [OF keys, of X ?zeta1 ?Z1 0 0 0 0]
    by (simp add: update_player_def Let_def z Z)
qed

lemma spec_Z_nth_cong: "Zs' ! i = Zs ! i \<Longrightarrow> spec_Z d quad X F Zs' i = spec_Z d quad X F Zs i"
  by (simp add: spec_Z_def)

lemma spec_zeta_nth_cong:
  "Zs' ! i = Zs ! i \<Longrightarrow> zetas' ! i = zetas ! i \<Longrightarrow>
     spec_zeta d quad X F beta Zs' zetas' i = spec_zeta d quad X F beta Zs zetas i"
  by (simp add: spec_zeta_def)

lemma update_loop_result:
  assumes quad: "wf_quad d quad"
    and "length Zs = NumPlayers d" and "length zetas = NumPlayers d" and "a \<le> NumPlayers d"
  shows "\<exists>Zs' zetas'. update_loop d X F beta quad [a..<NumPlayers d] (Zs, zetas) = Inr (Zs', zetas')
           \<and> length Zs' = NumPlayers d \<and> length zetas' = NumPlayers d
           \<and> (\<forall>i<NumPlayers d.
                 Zs' ! i = (if a \<le> i then spec_Z d quad X F Zs i else Zs ! i)
                 \<and> zetas' ! i = (if a \<le> i then spec_zeta d quad X F beta Zs zetas i else zetas ! i))"
  using assms(2-4)
proof (induction "NumPlayers d - a" arbitrary: a Zs zetas)
  case 0
  then show ?case by auto
next
  case (Suc k)
  then have a: "a < NumPlayers d" by simp
  then have upt: "[a..<NumPlayers d] = a # [Suc a..<NumPlayers d]"
    by (simp add: upt_conv_Cons)
  let ?Zs1 = "Zs[a := spec_Z d quad X F Zs a]"
  let ?zetas1 = "zetas[a := spec_zeta d quad X F beta Zs zetas a]"
  have wfa: "wf_cost d (quad ! a)" and lq: "a < length quad"
    using quad a by (simp_all add: wf_quad_def)
  have one: "update_player d X F beta quad a (Zs, zetas) = Inr (?Zs1, ?zetas1)"
    using a Suc.prems lq wfa by (intro update_player_result) simp_all
  have k: "k = NumPlayers d - Suc a" using Suc.hyps(2) by simp
  have sa: "Suc a \<le> NumPlayers d" using a by simp
  from Suc.hyps(1) [OF k _ _ sa, of ?Zs1 ?zetas1] Suc.prems
  obtain Zs' zetas' where rec: "update_loop d X F beta quad [Suc a..<NumPlayers d] (?Zs1, ?zetas1)
                                  = Inr (Zs', zetas')"
    and len: "length Zs' = NumPlayers d" "length zetas' = NumPlayers d"
    and nth: "\<forall>i<NumPlayers d.
                 Zs' ! i = (if Suc a \<le> i then spec_Z d quad X F ?Zs1 i else ?Zs1 ! i)
                 \<and> zetas' ! i = (if Suc a \<le> i then spec_zeta d quad X F beta ?Zs1 ?zetas1 i
                                 else ?zetas1 ! i)"
    by auto
  have run: "update_loop d X F beta quad [a..<NumPlayers d] (Zs, zetas) = Inr (Zs', zetas')"
    unfolding upt using one rec by simp
  have "Zs' ! i = (if a \<le> i then spec_Z d quad X F Zs i else Zs ! i)
        \<and> zetas' ! i = (if a \<le> i then spec_zeta d quad X F beta Zs zetas i else zetas ! i)"
    if i: "i < NumPlayers d" for i
  proof (cases "i = a")
    case True
    then show ?thesis
      using nth i Suc.prems by simp
  next
    case False
    then have "?Zs1 ! i = Zs ! i" "?zetas1 ! i = zetas ! i"
      by simp_all
    then show ?thesis
      using nth i False
      by (auto simp: spec_Z_nth_cong [of ?Zs1 i Zs] spec_zeta_nth_cong [of ?Zs1 i Zs ?zetas1 zetas])
  qed
  then show ?case
    using run len by blast
qed

lemma spec_beta_eq:
  "mat_sub (Zero_mat (XDim d) 1)
     (mat_sum r c {0..<NumPlayers d} (\<lambda>j. mat_mul (Bs lin ! j) (alpha_rows d X j)))
   = spec_beta d lin X"
  unfolding spec_beta_def by (rule mat_ext) (simp_all add: atLeast0LessThan)

lemma spec_F_eq:
  "mat_sub (A lin)
     (mat_sum (XDim d) (XDim d) {0..<NumPlayers d} (\<lambda>j. mat_mul (Bs lin ! j) (P_rows d X j)))
   = spec_F d lin X"
  by (simp add: spec_F_def atLeast0LessThan)

lemma backward_step_result:
  assumes lin: "wf_lin d lin" and quad: "wf_quad d quad" and own: "own_costs d quad"
    and vals: "wf_values d (m_Zs sv) (m_zetas sv)" and str: "wf_strategies d kk strategies"
    and d: "m_dynamics sv = d"
  shows "\<exists>sv' strategies'.
           backward_step qr lin quad kk (sv, strategies) = Inr (sv', strategies')
         \<and> m_dynamics sv' = d \<and> m_num_time_steps sv' = m_num_time_steps sv
         \<and> (\<forall>i<NumPlayers d. row_populated d lin quad (m_Zs sv) (m_zetas sv) i (m_S sv') (m_Y sv'))
         \<and> m_X sv' = qr (m_S sv') (m_Y sv')
         \<and> length strategies' = NumPlayers d
         \<and> (\<forall>i<NumPlayers d. strategies' ! i =
               \<lparr>Ps = (Ps (strategies ! i))[kk := P_rows d (m_X sv') i],
                alphas = (alphas (strategies ! i))[kk := alpha_rows d (m_X sv') i]\<rparr>)
         \<and> m_F sv' = spec_F d lin (m_X sv') \<and> m_beta sv' = spec_beta d lin (m_X sv')
         \<and> length (m_Zs sv') = NumPlayers d \<and> length (m_zetas sv') = NumPlayers d
         \<and> (\<forall>i<NumPlayers d.
               m_Zs sv' ! i = spec_Z d quad (m_X sv') (m_F sv') (m_Zs sv) i
               \<and> m_zetas sv' ! i
                   = spec_zeta d quad (m_X sv') (m_F sv') (m_beta sv') (m_Zs sv) (m_zetas sv) i)"
proof -
  from populate_loop_result [OF lin quad own vals, of 0 "m_S sv" "m_Y sv"]
  obtain S' Y' where pop: "populate_loop d lin quad (m_Zs sv) (m_zetas sv) [0..<NumPlayers d] 0
                             (m_S sv, m_Y sv) = Inr (S', Y')"
    and rows: "\<forall>i<NumPlayers d. row_populated d lin quad (m_Zs sv) (m_zetas sv) i S' Y'"
    by auto
  define X where "X = qr S' Y'"
  from set_strategy_loop_result [of strategies d kk 0 X] str
  obtain strategies' where sets: "set_strategy_loop d X kk [0..<NumPlayers d] strategies = Inr strategies'"
    and lens: "length strategies' = NumPlayers d"
    and nths: "\<forall>i<NumPlayers d. strategies' ! i =
               \<lparr>Ps = (Ps (strategies ! i))[kk := P_rows d X i],
                alphas = (alphas (strategies ! i))[kk := alpha_rows d X i]\<rparr>"
    by (auto simp: wf_strategies_def)
  have lenB: "NumPlayers d \<le> length (Bs lin)"
    using lin by (simp add: wf_lin_def)
  have Fb: "F_beta_loop d lin X [0..<NumPlayers d] (A lin, Zero_mat (XDim d) 1)
              = Inr (spec_F d lin X, spec_beta d lin X)"
    using F_beta_loop_result [OF lenB, of 0 X "A lin" "Zero_mat (XDim d) 1" "XDim d" "XDim d" 0 0]
    by (simp only: spec_F_eq spec_beta_eq le0)
  from update_loop_result [OF quad, of "m_Zs sv" "m_zetas sv" 0 X "spec_F d lin X" "spec_beta d lin X"] vals
  obtain Zs' zetas' where upd: "update_loop d X (spec_F d lin X) (spec_beta d lin X) quad
                                  [0..<NumPlayers d] (m_Zs sv, m_zetas sv) = Inr (Zs', zetas')"
    and lenZ: "length Zs' = NumPlayers d" "length zetas' = NumPlayers d"
    and nthZ: "\<forall>i<NumPlayers d.
                 Zs' ! i = spec_Z d quad X (spec_F d lin X) (m_Zs sv) i
                 \<and> zetas' ! i = spec_zeta d quad X (spec_F d lin X) (spec_beta d lin X)
                                  (m_Zs sv) (m_zetas sv) i"
    by (auto simp: wf_values_def)
  let ?sv' = "sv\<lparr>m_Zs := Zs', m_zetas := zetas', m_S := S', m_X := X, m_Y := Y',
                m_F := spec_F d lin X, m_beta := spec_beta d lin X\<rparr>"
  have run: "backward_step qr lin quad kk (sv, strategies) = Inr (?sv', strategies')"
    using pop sets Fb upd by (simp add: backward_step_def Let_def d X_def)
  show ?thesis
    using run rows lens nths lenZ nthZ d by (intro exI [of _ ?sv'] exI [of _ strategies']) (simp add: X_def)
qed


section \<open>Invariants of the backward pass\<close>

lemma wf_values_nth:
  "wf_values d Zs zetas \<longleftrightarrow>
     length Zs = NumPlayers d \<and> length zetas = NumPlayers d
     \<and> (\<forall>i<NumPlayers d. nrows (Zs ! i) = XDim d \<and> ncols (Zs ! i) = XDim d
            \<and> nrows (zetas ! i) = XDim d \<and> ncols (zetas ! i) = 1)"
  by (auto simp: wf_values_def all_set_conv_all_nth)

lemma backward_step_invariant:
  assumes lin: "wf_lin d lin" and quad: "wf_quad d quad" and own: "own_costs d quad"
    and inv: "pass_invariant d K st" and kk: "kk < K"
  shows "\<exists>st'. backward_step qr lin quad kk st = Inr st' \<and> pass_invariant d K st'"
proof -
  obtain sv strategies where st: "st = (sv, strategies)"
    by (cases st)
  have vals: "wf_values d (m_Zs sv) (m_zetas sv)" and d: "m_dynamics sv = d"
    and K: "m_num_time_steps sv = K"
    and lens: "length strategies = NumPlayers d"
    and lenP: "\<forall>s\<in>set strategies. length (Ps s) = K \<and> length (alphas s) = K"
    using inv by (simp_all add: pass_invariant_def st)
  have str: "wf_strategies d kk strategies"
    using lens lenP kk by (simp add: wf_strategies_def)
  from backward_step_result [OF lin quad own vals str d, of qr]
  obtain sv' strategies' where run: "backward_step qr lin quad kk (sv, strategies) = Inr (sv', strategies')"
    and d': "m_dynamics sv' = d" "m_num_time_steps sv' = m_num_time_steps sv"
    and lens': "length strategies' = NumPlayers d"
    and nths: "\<forall>i<NumPlayers d. strategies' ! i =
               \<lparr>Ps = (Ps (strategies ! i))[kk := P_rows d (m_X sv') i],
                alphas = (alphas (strategies ! i))[kk := alpha_rows d (m_X sv') i]\<rparr>"
    and F: "m_F sv' = spec_F d lin (m_X sv')"
    and lenZ: "length (m_Zs sv') = NumPlayers d" "length (m_zetas sv') = NumPlayers d"
    and nthZ: "\<forall>i<NumPlayers d.
               m_Zs sv' ! i = spec_Z d quad (m_X sv') (m_F sv') (m_Zs sv) i
               \<and> m_zetas sv' ! i
                   = spec_zeta d quad (m_X sv') (m_F sv') (m_beta sv') (m_Zs sv) (m_zetas sv) i"
    by blast
  have dimF: "ncols (m_F sv') = XDim d"
    using lin by (simp add: F spec_F_def wf_lin_def)
  have vals': "wf_values d (m_Zs sv') (m_zetas sv')"
    unfolding wf_values_nth using lenZ nthZ dimF vals
    by (simp add: spec_Z_def spec_zeta_def wf_values_nth)
  have "\<forall>s\<in>set strategies'. length (Ps s) = K \<and> length (alphas s) = K"
    unfolding all_set_conv_all_nth using nths lens lens' lenP by simp
  then have "pass_invariant d K (sv', strategies')"
    using d' K vals' lens' by (simp add: pass_invariant_def)
  then show ?thesis
    using run st by blast
qed

lemma backward_pass_append:
  "backward_pass qr lins quads (xs @ ys) st
     = and_then (backward_pass qr lins quads xs st) (backward_pass qr lins quads ys)"
proof (induction xs arbitrary: st)
  case Nil
  then show ?case by simp
next
  case (Cons kk xs)
  show ?case
    by (cases "and_then (index lins kk) (\<lambda>lin. and_then (index quads kk) (\<lambda>quad.
                 backward_step qr lin quad kk st))") (simp_all add: Cons)
qed

lemma backward_pass_invariant:
  assumes lins: "\<forall>lin\<in>set lins. wf_lin d lin" and quads: "\<forall>quad\<in>set quads. wf_quad d quad"
    and len: "length lins = K" "length quads = K"
    and kks: "\<forall>kk\<in>set kks. kk < K \<and> own_costs d (quads ! kk)"
    and inv: "pass_invariant d K st"
  shows "\<exists>st'. backward_pass qr lins quads kks st = Inr st' \<and> pass_invariant d K st'"
  using kks inv
proof (induction kks arbitrary: st)
  case Nil
  then show ?case by simp
next
  case (Cons kk kks)
  have kk: "kk < K" and own: "own_costs d (quads ! kk)"
    using Cons.prems(1) by simp_all
  have "wf_lin d (lins ! kk)" "wf_quad d (quads ! kk)"
    using lins quads len kk by simp_all
  from backward_step_invariant [OF this own Cons.prems(2) kk, of qr]
  obtain st1 where one: "backward_step qr (lins ! kk) (quads ! kk) kk st = Inr st1"
    and inv1: "pass_invariant d K st1"
    by blast
  from Cons.IH [OF _ inv1] Cons.prems(1)
  obtain st' where "backward_pass qr lins quads kks st1 = Inr st'" "pass_invariant d K st'"
    by auto
  then show ?case
    using one kk len by simp
qed

lemma initialize_loop_result:
  assumes "quads \<noteq> []" and "NumPlayers d \<le> length (last quads)"
    and "length Zs = NumPlayers d" and "length zetas = NumPlayers d" and "a \<le> NumPlayers d"
  shows "\<exists>Zs' zetas'. initialize_loop quads [a..<NumPlayers d] (Zs, zetas) = Inr (Zs', zetas')
           \<and> length Zs' = NumPlayers d \<and> length zetas' = NumPlayers d
           \<and> (\<forall>i<NumPlayers d.
                 Zs' ! i = (if a \<le> i then hess (state (last quads ! i)) else Zs ! i)
                 \<and> zetas' ! i = (if a \<le> i then grad (state (last quads ! i)) else zetas ! i))"
  using assms(3-5)
proof (induction "NumPlayers d - a" arbitrary: a Zs zetas)
  case 0
  then show ?case by auto
next
  case (Suc k)
  then have a: "a < NumPlayers d" by simp
  then have upt: "[a..<NumPlayers d] = a # [Suc a..<NumPlayers d]"
    by (simp add: upt_conv_Cons)
  let ?Zs1 = "Zs[a := hess (state (last quads ! a))]"
  let ?zetas1 = "zetas[a := grad (state (last quads ! a))]"
  have one: "initialize_player quads a (Zs, zetas) = Inr (?Zs1, ?zetas1)"
    using a assms(1,2) Suc.prems
    by (simp add: initialize_player_def vector_back_def assign_index_def)
  have k: "k = NumPlayers d - Suc a" using Suc.hyps(2) by simp
  have sa: "Suc a \<le> NumPlayers d" using a by simp
  from Suc.hyps(1) [OF k _ _ sa, of ?Zs1 ?zetas1] Suc.prems
  obtain Zs' zetas' where rec: "initialize_loop quads [Suc a..<NumPlayers d] (?Zs1, ?zetas1)
                                  = Inr (Zs', zetas')"
    and len: "length Zs' = NumPlayers d" "length zetas' = NumPlayers d"
    and nth: "\<forall>i<NumPlayers d.
                 Zs' ! i = (if Suc a \<le> i then hess (state (last quads ! i)) else ?Zs1 ! i)
                 \<and> zetas' ! i = (if Suc a \<le> i then grad (state (last quads ! i)) else ?zetas1 ! i)"
    by auto
  have run: "initialize_loop quads [a..<NumPlayers d] (Zs, zetas) = Inr (Zs', zetas')"
    unfolding upt using one rec by simp
  have "Zs' ! i = (if a \<le> i then hess (state (last quads ! i)) else Zs ! i)
        \<and> zetas' ! i = (if a \<le> i then grad (state (last quads ! i)) else zetas ! i)"
    if "i < NumPlayers d" for i
    using nth that Suc.prems by (cases "i = a") auto
  then show ?case
    using run len by blast
qed

lemma Solve_setup_result:
  assumes wf: "wf_problem sv lins quads" and hor: "horizons_match sv lins quads"
  shows "\<exists>sv0. Solve_setup sv lins quads =
           Inr (sv0, map (\<lambda>ii. Strategy_ctor (m_num_time_steps sv) (XDim (m_dynamics sv))
                                  (UDim (m_dynamics sv) ii)) [0..<NumPlayers (m_dynamics sv)])
         \<and> pass_invariant (m_dynamics sv) (m_num_time_steps sv)
             (sv0, map (\<lambda>ii. Strategy_ctor (m_num_time_steps sv) (XDim (m_dynamics sv))
                                  (UDim (m_dynamics sv) ii)) [0..<NumPlayers (m_dynamics sv)])
         \<and> (\<forall>i<NumPlayers (m_dynamics sv). m_Zs sv0 ! i = hess (state (last quads ! i)))"
proof -
  let ?d = "m_dynamics sv" and ?K = "m_num_time_steps sv"
  let ?st = "map (\<lambda>ii. Strategy_ctor ?K (XDim ?d) (UDim ?d ii)) [0..<NumPlayers ?d]"
  have ne: "quads \<noteq> []"
    using wf hor by (auto simp: wf_problem_def horizons_match_def)
  then have lastq: "wf_quad ?d (last quads)"
    using wf by (simp add: wf_problem_def)
  then have lenl: "NumPlayers ?d \<le> length (last quads)"
    by (simp add: wf_quad_def)
  from initialize_loop_result [OF ne lenl, of "m_Zs sv" "m_zetas sv" 0] wf
  obtain Zs' zetas' where ini: "initialize_loop quads [0..<NumPlayers ?d] (m_Zs sv, m_zetas sv)
                                  = Inr (Zs', zetas')"
    and len: "length Zs' = NumPlayers ?d" "length zetas' = NumPlayers ?d"
    and nth: "\<forall>i<NumPlayers ?d. Zs' ! i = hess (state (last quads ! i))
                 \<and> zetas' ! i = grad (state (last quads ! i))"
    by (auto simp: wf_problem_def)
  let ?sv0 = "sv\<lparr>m_Zs := Zs', m_zetas := zetas'\<rparr>"
  have run: "Solve_setup sv lins quads = Inr (?sv0, ?st)"
    using hor ini by (simp add: Solve_setup_def horizons_match_def Let_def)
  have "wf_cost ?d (last quads ! i)" if "i < NumPlayers ?d" for i
    using lastq that by (simp add: wf_quad_def)
  then have vals: "wf_values ?d Zs' zetas'"
    unfolding wf_values_nth using len nth by (simp add: wf_cost_def)
  have "pass_invariant ?d ?K (?sv0, ?st)"
    using vals by (simp add: pass_invariant_def Strategy_ctor_def)
  then show ?thesis
    using run nth by (intro exI [of _ ?sv0]) simp
qed


section \<open>Properties of LQFeedbackSolver::Solve\<close>

lemma time_steps_split:
  assumes "k < K - 1"
  shows "time_steps K = rev [Suc k..<K - 1] @ k # rev [0..<k]"
proof -
  have "[0..<K - 1] = [0..<k] @ [k..<K - 1]"
    using assms upt_add_eq_append [of 0 k "K - 1 - k"] by simp
  then have "[0..<K - 1] = [0..<k] @ k # [Suc k..<K - 1]"
    using assms by (simp add: upt_conv_Cons)
  then show ?thesis
    by (simp add: time_steps_def)
qed

lemma Solve_split:
  assumes "k < m_num_time_steps sv - 1"
  shows "Solve qr sv lins quads =
           and_then (Solve_until qr sv lins quads k)
             (backward_pass qr lins quads (k # rev [0..<k]))"
  unfolding Solve_def Solve_until_def time_steps_split [OF assms] backward_pass_append
  by (simp add: and_then_assoc)

lemma Solve_until_invariant:
  assumes wf: "wf_problem sv lins quads" and hor: "horizons_match sv lins quads"
    and own: "own_costs_present sv quads"
  shows "\<exists>st. Solve_until qr sv lins quads k = Inr st
           \<and> pass_invariant (m_dynamics sv) (m_num_time_steps sv) st"
proof -
  let ?d = "m_dynamics sv" and ?K = "m_num_time_steps sv"
  from Solve_setup_result [OF wf hor]
  obtain st0 where set: "Solve_setup sv lins quads = Inr st0" and inv0: "pass_invariant ?d ?K st0"
    by blast
  have kks: "\<forall>kk\<in>set (rev [Suc k..<?K - 1]). kk < ?K \<and> own_costs ?d (quads ! kk)"
    using own by (auto simp: own_costs_present_def)
  have "\<forall>lin\<in>set lins. wf_lin ?d lin" "\<forall>quad\<in>set quads. wf_quad ?d quad"
    "length lins = ?K" "length quads = ?K"
    using wf hor by (simp_all add: wf_problem_def horizons_match_def)
  from backward_pass_invariant [OF this kks inv0, of qr]
  show ?thesis
    using set by (simp add: Solve_until_def)
qed

lemma Solve_step:
  assumes wf: "wf_problem sv lins quads" and hor: "horizons_match sv lins quads"
    and own: "own_costs_present sv quads" and k: "k < m_num_time_steps sv - 1"
    and d: "m_dynamics sv = d"
  shows "\<exists>sv_k st_k. Solve_until qr sv lins quads k = Inr (sv_k, st_k)
           \<and> Solve qr sv lins quads =
               and_then (backward_step qr (lins ! k) (quads ! k) k (sv_k, st_k))
                 (backward_pass qr lins quads (rev [0..<k]))
           \<and> wf_lin d (lins ! k) \<and> wf_quad d (quads ! k) \<and> own_costs d (quads ! k)
           \<and> wf_values d (m_Zs sv_k) (m_zetas sv_k) \<and> wf_strategies d k st_k
           \<and> m_dynamics sv_k = d"
proof -
  let ?K = "m_num_time_steps sv"
  from Solve_until_invariant [OF wf hor own, of qr k]
  obtain sv_k st_k where unt: "Solve_until qr sv lins quads k = Inr (sv_k, st_k)"
    and inv: "pass_invariant d ?K (sv_k, st_k)"
    using d by auto
  have len: "length lins = ?K" "length quads = ?K"
    using hor by (simp_all add: horizons_match_def)
  have kK: "k < ?K" using k by simp
  have wfk: "wf_lin d (lins ! k)" "wf_quad d (quads ! k)"
    using wf len kK d by (auto simp: wf_problem_def)
  have ownk: "own_costs d (quads ! k)"
    using own k d by (auto simp: own_costs_present_def)
  have "Solve qr sv lins quads =
               and_then (backward_step qr (lins ! k) (quads ! k) k (sv_k, st_k))
                 (backward_pass qr lins quads (rev [0..<k]))"
    unfolding Solve_split [OF k] unt using len kK
    by (cases "backward_step qr (lins ! k) (quads ! k) k (sv_k, st_k)") simp_all
  moreover have "wf_values d (m_Zs sv_k) (m_zetas sv_k)" "wf_strategies d k st_k" "m_dynamics sv_k = d"
    using inv kK by (auto simp: pass_invariant_def wf_strategies_def)
  ultimately show ?thesis
    using unt wfk ownk by blast
qed

text \<open>
  Claim C4: at every step \<open>k\<close> of the backward pass, with \<open>Z\<^sub>i\<close> and \<open>zeta\<^sub>i\<close> the values
  on entry to the step, the system that is solved has the blocks
  \<open>S\<^sub>i\<^sub>i = B\<^sub>i\<^sup>T Z\<^sub>i B\<^sub>i + R\<^sub>i\<^sub>i\<close> and \<open>S\<^sub>i\<^sub>j = B\<^sub>i\<^sup>T Z\<^sub>i B\<^sub>j\<close>, and the right-hand side rows
  \<open>B\<^sub>i\<^sup>T Z\<^sub>i A\<close> in the first \<open>n\<close> columns and \<open>B\<^sub>i\<^sup>T zeta\<^sub>i + r\<^sub>i\<^sub>i\<close> in column \<open>n\<close>; \<open>X\<close> is the
  result of the QR solve on \<open>S\<close> and \<open>Y\<close>, and the \<open>P\<^sub>i\<close> and \<open>alpha\<^sub>i\<close> stored for step \<open>k\<close>
  are the row blocks of player \<open>i\<close> in \<open>X\<close>.
\<close>

theorem linear_system_structure:
  assumes "wf_problem sv lins quads" and "horizons_match sv lins quads"
    and "own_costs_present sv quads" and "k < m_num_time_steps sv - 1"
    and "m_dynamics sv = d"
  shows "\<exists>sv_k st_k sv' st'.
           Solve_until qr sv lins quads k = Inr (sv_k, st_k)
         \<and> backward_step qr (lins ! k) (quads ! k) k (sv_k, st_k) = Inr (sv', st')
         \<and> Solve qr sv lins quads = backward_pass qr lins quads (rev [0..<k]) (sv', st')
         \<and> (\<forall>i<NumPlayers d. \<forall>j<NumPlayers d.
               mat_eq (block (m_S sv') (cumulative_udim d i) (cumulative_udim d j) (UDim d i) (UDim d j))
                 (spec_S_block (lins ! k) (quads ! k) (m_Zs sv_k) i j))
         \<and> (\<forall>i<NumPlayers d.
               mat_eq (block (m_Y sv') (cumulative_udim d i) 0 (UDim d i) (XDim d))
                 (spec_Y_state (lins ! k) (m_Zs sv_k) i)
               \<and> mat_eq (block (m_Y sv') (cumulative_udim d i) (XDim d) (UDim d i) 1)
                   (spec_Y_last (lins ! k) (quads ! k) (m_zetas sv_k) i))
         \<and> m_X sv' = qr (m_S sv') (m_Y sv')
         \<and> (\<forall>i<NumPlayers d.
               Ps (st' ! i) ! k = block (m_X sv') (cumulative_udim d i) 0 (UDim d i) (XDim d)
               \<and> alphas (st' ! i) ! k
                   = block (m_X sv') (cumulative_udim d i) (XDim d) (UDim d i) 1)"
proof -
  from Solve_step [OF assms, of qr]
  obtain sv_k st_k where unt: "Solve_until qr sv lins quads k = Inr (sv_k, st_k)"
    and sol: "Solve qr sv lins quads =
               and_then (backward_step qr (lins ! k) (quads ! k) k (sv_k, st_k))
                 (backward_pass qr lins quads (rev [0..<k]))"
    and wfk: "wf_lin d (lins ! k)" "wf_quad d (quads ! k)" "own_costs d (quads ! k)"
      "wf_values d (m_Zs sv_k) (m_zetas sv_k)" "wf_strategies d k st_k" "m_dynamics sv_k = d"
    by blast
  from backward_step_result [OF wfk, of qr]
  obtain sv' st' where run: "backward_step qr (lins ! k) (quads ! k) k (sv_k, st_k) = Inr (sv', st')"
    and rows: "\<forall>i<NumPlayers d. row_populated d (lins ! k) (quads ! k) (m_Zs sv_k) (m_zetas sv_k) i
                 (m_S sv') (m_Y sv')"
    and X: "m_X sv' = qr (m_S sv') (m_Y sv')"
    and nths: "\<forall>i<NumPlayers d. st' ! i =
               \<lparr>Ps = (Ps (st_k ! i))[k := P_rows d (m_X sv') i],
                alphas = (alphas (st_k ! i))[k := alpha_rows d (m_X sv') i]\<rparr>"
    by blast
  have inr: "\<forall>i<NumPlayers d. k < length (Ps (st_k ! i)) \<and> k < length (alphas (st_k ! i))"
    using wfk(5) by (simp add: wf_strategies_def)
  have PA: "\<forall>i<NumPlayers d.
               Ps (st' ! i) ! k = block (m_X sv') (cumulative_udim d i) 0 (UDim d i) (XDim d)
               \<and> alphas (st' ! i) ! k
                   = block (m_X sv') (cumulative_udim d i) (XDim d) (UDim d i) 1"
    using nths inr by (simp add: P_rows_def alpha_rows_def)
  have sol': "Solve qr sv lins quads = backward_pass qr lins quads (rev [0..<k]) (sv', st')"
    using sol run by simp
  show ?thesis
    using unt run sol' rows X PA
    by (intro exI [of _ sv_k] exI [of _ st_k] exI [of _ sv'] exI [of _ st'])
       (simp add: row_populated_def)
qed

text \<open>
  Claim C3: at every step \<open>k\<close> of the backward pass, with \<open>P\<^sub>j\<close> and \<open>alpha\<^sub>j\<close> the strategy
  stored for the step, the closed-loop matrix is \<open>F = A - \<Sum>\<^sub>j B\<^sub>j P\<^sub>j\<close>, the drift is
  \<open>beta = - \<Sum>\<^sub>j B\<^sub>j alpha\<^sub>j\<close>, and every player's value becomes
  \<open>zeta\<^sub>i = F\<^sup>T (zeta\<^sub>i + Z\<^sub>i beta) + l\<^sub>i + \<Sum>\<^sub>j P\<^sub>j\<^sup>T (R\<^sub>i\<^sub>j alpha\<^sub>j - r\<^sub>i\<^sub>j)\<close> and
  \<open>Z\<^sub>i = F\<^sup>T Z\<^sub>i F + Q\<^sub>i + \<Sum>\<^sub>j P\<^sub>j\<^sup>T R\<^sub>i\<^sub>j P\<^sub>j\<close>, the sums over \<open>j\<close> ranging over the players
  for which player \<open>i\<close>'s cost has an entry.
\<close>

theorem value_update:
  assumes "wf_problem sv lins quads" and "horizons_match sv lins quads"
    and "own_costs_present sv quads" and "k < m_num_time_steps sv - 1"
    and "m_dynamics sv = d"
  shows "\<exists>sv_k st_k sv' st'.
           Solve_until qr sv lins quads k = Inr (sv_k, st_k)
         \<and> backward_step qr (lins ! k) (quads ! k) k (sv_k, st_k) = Inr (sv', st')
         \<and> Solve qr sv lins quads = backward_pass qr lins quads (rev [0..<k]) (sv', st')
         \<and> (\<forall>j<NumPlayers d. Ps (st' ! j) ! k = P_rows d (m_X sv') j
                               \<and> alphas (st' ! j) ! k = alpha_rows d (m_X sv') j)
         \<and> m_F sv' = spec_F d (lins ! k) (m_X sv')
         \<and> m_beta sv' = spec_beta d (lins ! k) (m_X sv')
         \<and> (\<forall>i<NumPlayers d.
               m_zetas sv' ! i
                 = spec_zeta d (quads ! k) (m_X sv') (m_F sv') (m_beta sv') (m_Zs sv_k) (m_zetas sv_k) i
               \<and> m_Zs sv' ! i = spec_Z d (quads ! k) (m_X sv') (m_F sv') (m_Zs sv_k) i)"
proof -
  from Solve_step [OF assms, of qr]
  obtain sv_k st_k where unt: "Solve_until qr sv lins quads k = Inr (sv_k, st_k)"
    and sol: "Solve qr sv lins quads =
               and_then (backward_step qr (lins ! k) (quads ! k) k (sv_k, st_k))
                 (backward_pass qr lins quads (rev [0..<k]))"
    and wfk: "wf_lin d (lins ! k)" "wf_quad d (quads ! k)" "own_costs d (quads ! k)"
      "wf_values d (m_Zs sv_k) (m_zetas sv_k)" "wf_strategies d k st_k" "m_dynamics sv_k = d"
    by blast
  from backward_step_result [OF wfk, of qr]
  obtain sv' st' where run: "backward_step qr (lins ! k) (quads ! k) k (sv_k, st_k) = Inr (sv', st')"
    and nths: "\<forall>i<NumPlayers d. st' ! i =
               \<lparr>Ps = (Ps (st_k ! i))[k := P_rows d (m_X sv') i],
                alphas = (alphas (st_k ! i))[k := alpha_rows d (m_X sv') i]\<rparr>"
    and F: "m_F sv' = spec_F d (lins ! k) (m_X sv')" "m_beta sv' = spec_beta d (lins ! k) (m_X sv')"
    and nthZ: "\<forall>i<NumPlayers d.
               m_Zs sv' ! i = spec_Z d (quads ! k) (m_X sv') (m_F sv') (m_Zs sv_k) i
               \<and> m_zetas sv' ! i
                   = spec_zeta d (quads ! k) (m_X sv') (m_F sv') (m_beta sv') (m_Zs sv_k) (m_zetas sv_k) i"
    by blast
  have inr: "\<forall>i<NumPlayers d. k < length (Ps (st_k ! i)) \<and> k < length (alphas (st_k ! i))"
    using wfk(5) by (simp add: wf_strategies_def)
  have PA: "\<forall>j<NumPlayers d. Ps (st' ! j) ! k = P_rows d (m_X sv') j
                               \<and> alphas (st' ! j) ! k = alpha_rows d (m_X sv') j"
    using nths inr by simp
  have sol': "Solve qr sv lins quads = backward_pass qr lins quads (rev [0..<k]) (sv', st')"
    using sol run by simp
  show ?thesis
    using unt run sol' PA F nthZ
    by (intro exI [of _ sv_k] exI [of _ st_k] exI [of _ sv'] exI [of _ st']) simp
qed

lemma backward_pass_last_entries:
  assumes lins: "\<forall>lin\<in>set lins. wf_lin d lin" and quads: "\<forall>quad\<in>set quads. wf_quad d quad"
    and len: "length lins = K" "length quads = K"
    and kks: "\<forall>kk\<in>set kks. kk < K - 1 \<and> own_costs d (quads ! kk)"
    and inv: "pass_invariant d K st"
    and run: "backward_pass qr lins quads kks st = Inr st'"
  shows "\<forall>i<NumPlayers d. Ps (snd st' ! i) ! (K - 1) = Ps (snd st ! i) ! (K - 1)
           \<and> alphas (snd st' ! i) ! (K - 1) = alphas (snd st ! i) ! (K - 1)"
  using kks inv run
proof (induction kks arbitrary: st)
  case Nil
  then show ?case by simp
next
  case (Cons kk kks)
  obtain sv strategies where st: "st = (sv, strategies)"
    by (cases st)
  have kk: "kk < K - 1" and own: "own_costs d (quads ! kk)"
    using Cons.prems(1) by simp_all
  then have kK: "kk < K" by simp
  have wfk: "wf_lin d (lins ! kk)" "wf_quad d (quads ! kk)"
    using lins quads len kK by simp_all
  have vals: "wf_values d (m_Zs sv) (m_zetas sv)" and d: "m_dynamics sv = d"
    and str: "wf_strategies d kk strategies"
    using Cons.prems(2) kK by (auto simp: pass_invariant_def st wf_strategies_def)
  from backward_step_result [OF wfk own vals str d, of qr]
  obtain sv1 st1 where one: "backward_step qr (lins ! kk) (quads ! kk) kk (sv, strategies) = Inr (sv1, st1)"
    and nths: "\<forall>i<NumPlayers d. st1 ! i =
               \<lparr>Ps = (Ps (strategies ! i))[kk := P_rows d (m_X sv1) i],
                alphas = (alphas (strategies ! i))[kk := alpha_rows d (m_X sv1) i]\<rparr>"
    by blast
  from backward_step_invariant [OF wfk own Cons.prems(2) kK, of qr] one
  have inv1: "pass_invariant d K (sv1, st1)"
    by (simp add: st)
  have rest: "backward_pass qr lins quads kks (sv1, st1) = Inr st'"
    using Cons.prems(3) one kK len by (simp add: st)
  from Cons.IH [OF _ inv1 rest] Cons.prems(1)
  have "\<forall>i<NumPlayers d. Ps (snd st' ! i) ! (K - 1) = Ps (st1 ! i) ! (K - 1)
           \<and> alphas (snd st' ! i) ! (K - 1) = alphas (st1 ! i) ! (K - 1)"
    by simp
  then show ?case
    using nths kk by (simp add: st)
qed

lemma Solve_result:
  assumes wf: "wf_problem sv lins quads" and hor: "horizons_match sv lins quads"
    and own: "own_costs_present sv quads"
    and d: "m_dynamics sv = d" and K: "m_num_time_steps sv = K"
  shows "\<exists>sv' strategies.
           Solve qr sv lins quads = Inr (sv', strategies)
         \<and> length strategies = NumPlayers d
         \<and> (\<forall>i<NumPlayers d.
               length (Ps (strategies ! i)) = K \<and> length (alphas (strategies ! i)) = K
               \<and> Ps (strategies ! i) ! (K - 1) = Zero_mat (UDim d i) (XDim d)
               \<and> alphas (strategies ! i) ! (K - 1) = Zero_mat (UDim d i) 1)"
proof -
  let ?st0 = "map (\<lambda>ii. Strategy_ctor K (XDim d) (UDim d ii)) [0..<NumPlayers d]"
  from Solve_setup_result [OF wf hor]
  obtain sv0 where set: "Solve_setup sv lins quads = Inr (sv0, ?st0)"
    and inv0: "pass_invariant d K (sv0, ?st0)"
    using d K by auto
  have kks: "\<forall>kk\<in>set (time_steps K). kk < K - 1 \<and> own_costs d (quads ! kk)"
    using own d K by (auto simp: own_costs_present_def time_steps_def)
  then have kks': "\<forall>kk\<in>set (time_steps K). kk < K \<and> own_costs d (quads ! kk)"
    by auto
  have wfs: "\<forall>lin\<in>set lins. wf_lin d lin" "\<forall>quad\<in>set quads. wf_quad d quad"
    "length lins = K" "length quads = K"
    using wf hor d K by (auto simp: wf_problem_def horizons_match_def)
  from backward_pass_invariant [OF wfs kks' inv0, of qr]
  obtain sv' strategies where run: "backward_pass qr lins quads (time_steps K) (sv0, ?st0) = Inr (sv', strategies)"
    and inv: "pass_invariant d K (sv', strategies)"
    by auto
  have last: "\<forall>i<NumPlayers d. Ps (strategies ! i) ! (K - 1) = Ps (?st0 ! i) ! (K - 1)
           \<and> alphas (strategies ! i) ! (K - 1) = alphas (?st0 ! i) ! (K - 1)"
    using backward_pass_last_entries [OF wfs kks inv0 run] by simp
  have Kpos: "0 < K"
    using wf K by (simp add: wf_problem_def)
  have sol: "Solve qr sv lins quads = Inr (sv', strategies)"
    using set run K by (simp add: Solve_def)
  have lens: "length strategies = NumPlayers d"
    "\<forall>i<NumPlayers d. length (Ps (strategies ! i)) = K \<and> length (alphas (strategies ! i)) = K"
    using inv by (simp_all add: pass_invariant_def)
  have "\<forall>i<NumPlayers d. Ps (strategies ! i) ! (K - 1) = Zero_mat (UDim d i) (XDim d)
               \<and> alphas (strategies ! i) ! (K - 1) = Zero_mat (UDim d i) 1"
    using last Kpos by (simp add: Strategy_ctor_def)
  then show ?thesis
    using sol lens by blast
qed

text \<open>
  Claim C1, amended: on well-formed arguments \<^verbatim>\<open>Solve\<close> returns one strategy per player,
  and the sequences \<open>Ps\<close> and \<open>alphas\<close> of each have length \<open>K\<close>, the number of time steps:
  the constructor allocates \<open>K\<close> entries and the backward pass assigns the entries
  \<open>0, \<dots>, K - 2\<close> in place. The entry \<open>K - 1\<close> is still the zero matrix of the constructor.
  For \<open>K = 1\<close> this is the only entry, so the returned strategies are not empty.
\<close>

theorem Solve_strategy_lengths:
  assumes "wf_problem sv lins quads" and "horizons_match sv lins quads"
    and "own_costs_present sv quads"
    and "m_dynamics sv = d" and "m_num_time_steps sv = K"
  shows "\<exists>sv' strategies.
           Solve qr sv lins quads = Inr (sv', strategies)
         \<and> length strategies = NumPlayers d
         \<and> (\<forall>i<NumPlayers d.
               length (Ps (strategies ! i)) = K \<and> length (alphas (strategies ! i)) = K
               \<and> Ps (strategies ! i) ! (K - 1) = Zero_mat (UDim d i) (XDim d)
               \<and> alphas (strategies ! i) ! (K - 1) = Zero_mat (UDim d i) 1)"
  using assms by (rule Solve_result)

lemma S_row_loop_fails:
  assumes "ii \<in> set jjs" and "\<forall>jj\<in>set jjs. jj < length (Bs lin)" and "ii < length quad"
    and "map_of (control (quad ! ii)) ii = None"
  shows "S_row_loop d lin quad BiZi ii crow jjs ccol S = Inl (CheckFailed OwnControlCost)"
  using assms(1,2)
proof (induction jjs arbitrary: ccol S)
  case Nil
  then show ?case by simp
next
  case (Cons jj jjs)
  show ?case
  proof (cases "jj = ii")
    case True
    then show ?thesis
      using assms(3,4) by (simp add: S_block_value_def)
  next
    case False
    then have "S_block_value lin quad BiZi ii jj = Inr (mat_mul BiZi (Bs lin ! jj))"
      using Cons.prems(2) by (simp add: S_block_value_def)
    moreover have "ii \<in> set jjs"
      using Cons.prems(1) False by simp
    ultimately show ?thesis
      using Cons.IH Cons.prems(2) by simp
  qed
qed

lemma populate_player_fails:
  assumes lin: "wf_lin d lin" and quad: "wf_quad d quad" and vals: "wf_values d Zs zetas"
    and ii: "ii < NumPlayers d" and own: "ii \<notin> control_players quad ii"
  shows "populate_player d lin quad Zs zetas ii crow SY = Inl (CheckFailed OwnControlCost)"
proof -
  have len: "ii < length (Bs lin)" "ii < length Zs" "ii < length quad"
    using lin quad vals ii by (simp_all add: wf_lin_def wf_quad_def wf_values_def)
  have none: "map_of (control (quad ! ii)) ii = None"
    using own by (simp add: control_players_def map_of_eq_None_iff)
  have "S_row_loop d lin quad (mat_mul (transpose_mat (Bs lin ! ii)) (Zs ! ii)) ii crow
          [0..<NumPlayers d] 0 (fst SY) = Inl (CheckFailed OwnControlCost)"
    using ii lin len none by (intro S_row_loop_fails) (simp_all add: wf_lin_def)
  then show ?thesis
    using len by (simp add: populate_player_def Let_def)
qed

lemma populate_loop_fails:
  assumes lin: "wf_lin d lin" and quad: "wf_quad d quad" and vals: "wf_values d Zs zetas"
    and i: "a \<le> i" "i < NumPlayers d" "i \<notin> control_players quad i"
  shows "populate_loop d lin quad Zs zetas [a..<NumPlayers d] (cumulative_udim d a) SY
           = Inl (CheckFailed OwnControlCost)"
  using i(1)
proof (induction "NumPlayers d - a" arbitrary: a SY)
  case 0
  then show ?case using i(2) by simp
next
  case (Suc k)
  then have a: "a < NumPlayers d" by simp
  then have upt: "[a..<NumPlayers d] = a # [Suc a..<NumPlayers d]"
    by (simp add: upt_conv_Cons)
  show ?case
  proof (cases "a \<in> control_players quad a")
    case False
    then show ?thesis
      unfolding upt using populate_player_fails [OF lin quad vals a False] by simp
  next
    case True
    obtain S Y where SY: "SY = (S, Y)" by (cases SY)
    from populate_player_result [OF lin quad True vals a, of S Y]
    obtain SY1 where p1: "populate_player d lin quad Zs zetas a (cumulative_udim d a) SY = Inr SY1"
      unfolding SY by blast
    have "i \<noteq> a" using True i(3) by auto
    then have sa: "Suc a \<le> i" using Suc.prems by simp
    have k: "k = NumPlayers d - Suc a" using Suc.hyps(2) by simp
    show ?thesis
      unfolding upt using p1 Suc.hyps(1) [OF k sa, of SY1] by simp
  qed
qed

lemma backward_step_fails:
  assumes lin: "wf_lin d lin" and quad: "wf_quad d quad" and own: "\<not> own_costs d quad"
    and inv: "pass_invariant d K st"
  shows "backward_step qr lin quad kk st = Inl (CheckFailed OwnControlCost)"
proof -
  from own obtain i where i: "i < NumPlayers d" "i \<notin> control_players quad i"
    by (auto simp: own_costs_def)
  have vals: "wf_values d (m_Zs (fst st)) (m_zetas (fst st))" and d: "m_dynamics (fst st) = d"
    using inv by (simp_all add: pass_invariant_def)
  have "populate_loop d lin quad (m_Zs (fst st)) (m_zetas (fst st)) [0..<NumPlayers d]
          (cumulative_udim d 0) (m_S (fst st), m_Y (fst st)) = Inl (CheckFailed OwnControlCost)"
    using i by (intro populate_loop_fails [OF lin quad vals]) simp_all
  then show ?thesis
    by (simp add: backward_step_def Let_def d)
qed

lemma backward_pass_fails:
  assumes lins: "\<forall>lin\<in>set lins. wf_lin d lin" and quads: "\<forall>quad\<in>set quads. wf_quad d quad"
    and len: "length lins = K" "length quads = K"
    and kks: "\<forall>kk\<in>set kks. kk < K" and bad: "\<exists>kk\<in>set kks. \<not> own_costs d (quads ! kk)"
    and inv: "pass_invariant d K st"
  shows "backward_pass qr lins quads kks st = Inl (CheckFailed OwnControlCost)"
  using kks bad inv
proof (induction kks arbitrary: st)
  case Nil
  then show ?case by simp
next
  case (Cons kk kks)
  have kK: "kk < K" using Cons.prems(1) by simp
  have wfk: "wf_lin d (lins ! kk)" "wf_quad d (quads ! kk)"
    using lins quads len kK by simp_all
  show ?case
  proof (cases "own_costs d (quads ! kk)")
    case False
    then show ?thesis
      using backward_step_fails [OF wfk False Cons.prems(3), of qr kk] kK len by simp
  next
    case True
    from backward_step_invariant [OF wfk True Cons.prems(3) kK, of qr]
    obtain st1 where one: "backward_step qr (lins ! kk) (quads ! kk) kk st = Inr st1"
      and inv1: "pass_invariant d K st1"
      by blast
    have "\<exists>kk\<in>set kks. \<not> own_costs d (quads ! kk)"
      using Cons.prems(2) True by auto
    then have "backward_pass qr lins quads kks st1 = Inl (CheckFailed OwnControlCost)"
      using Cons.IH Cons.prems(1) inv1 by simp
    then show ?thesis
      using one kK len by simp
  qed
qed

text \<open>
  Claim C5, amended: \<^verbatim>\<open>Solve\<close> itself detects two of the configuration errors, fatally.
  On arguments that are well-formed otherwise, it fails at \<^verbatim>\<open>CHECK_EQ\<close> when the length of
  the linearization or of the quadraticization differs from the number of time steps,
  and at \<^verbatim>\<open>CHECK\<close> when, at a time step before the last, a player's cost has no entry for
  its own control; in every other case it returns. Dimensions are not checked by \<^verbatim>\<open>Solve\<close>.
\<close>

theorem Solve_failures:
  assumes wf: "wf_problem sv lins quads"
  shows "(length lins \<noteq> m_num_time_steps sv \<longrightarrow>
            Solve qr sv lins quads = Inl (CheckFailed LinearizationSize))
       \<and> (length lins = m_num_time_steps sv \<and> length quads \<noteq> m_num_time_steps sv \<longrightarrow>
            Solve qr sv lins quads = Inl (CheckFailed QuadraticizationSize))
       \<and> (horizons_match sv lins quads \<and> \<not> own_costs_present sv quads \<longrightarrow>
            Solve qr sv lins quads = Inl (CheckFailed OwnControlCost))
       \<and> (horizons_match sv lins quads \<and> own_costs_present sv quads \<longrightarrow>
            (\<exists>result. Solve qr sv lins quads = Inr result))"
proof -
  let ?d = "m_dynamics sv" and ?K = "m_num_time_steps sv"
  have a: "Solve qr sv lins quads = Inl (CheckFailed LinearizationSize)"
    if "length lins \<noteq> ?K"
    using that by (simp add: Solve_def Solve_setup_def)
  have b: "Solve qr sv lins quads = Inl (CheckFailed QuadraticizationSize)"
    if "length lins = ?K \<and> length quads \<noteq> ?K"
    using that by (simp add: Solve_def Solve_setup_def)
  have c: "Solve qr sv lins quads = Inl (CheckFailed OwnControlCost)"
    if hor: "horizons_match sv lins quads" and own: "\<not> own_costs_present sv quads"
  proof -
    from Solve_setup_result [OF wf hor]
    obtain st0 where set: "Solve_setup sv lins quads = Inr st0" and inv0: "pass_invariant ?d ?K st0"
      by blast
    have wfs: "\<forall>lin\<in>set lins. wf_lin ?d lin" "\<forall>quad\<in>set quads. wf_quad ?d quad"
      "length lins = ?K" "length quads = ?K"
      using wf hor by (auto simp: wf_problem_def horizons_match_def)
    have kks: "\<forall>kk\<in>set (time_steps ?K). kk < ?K"
      by (auto simp: time_steps_def)
    have bad: "\<exists>kk\<in>set (time_steps ?K). \<not> own_costs ?d (quads ! kk)"
      using own by (auto simp: own_costs_present_def time_steps_def)
    show ?thesis
      using backward_pass_fails [OF wfs kks bad inv0, of qr] set by (simp add: Solve_def)
  qed
  have e: "\<exists>result. Solve qr sv lins quads = Inr result"
    if hor: "horizons_match sv lins quads" and own: "own_costs_present sv quads"
    using Solve_result [OF wf hor own refl refl, of qr] by auto
  show ?thesis
    using a b c e by blast
qed

lemma congruence_symmetric:
  assumes sym: "symmetric Z" and dim: "nrows M = nrows Z"
  shows "ent (mat_mul (mat_mul (transpose_mat M) Z) M) a b
           = ent (mat_mul (mat_mul (transpose_mat M) Z) M) b a"
proof -
  let ?n = "nrows Z"
  have cz: "ncols Z = ?n"
    using sym by (simp add: symmetric_def)
  have Z: "ent Z l k = ent Z k l" if "l < ?n" "k < ?n" for l k
    using sym that by (simp add: symmetric_def)
  have expand: "ent (mat_mul (mat_mul (transpose_mat M) Z) M) a b
                  = (\<Sum>k<?n. \<Sum>l<?n. ent M l a * ent Z l k * ent M k b)" for a b
    by (simp add: ent_mat_mul cz dim sum_distrib_right)
  have "(\<Sum>k<?n. \<Sum>l<?n. ent M l a * ent Z l k * ent M k b)
          = (\<Sum>l<?n. \<Sum>k<?n. ent M l a * ent Z l k * ent M k b)"
    by (rule sum.swap)
  also have "\<dots> = (\<Sum>l<?n. \<Sum>k<?n. ent M k b * ent Z k l * ent M l a)"
    by (intro sum.cong refl) (simp add: Z mult_ac)
  finally show ?thesis
    by (simp only: expand)
qed

lemma spec_Z_symmetric:
  assumes "symmetric (Zs ! i)" and "nrows F = nrows (Zs ! i)"
    and "symmetric (hess (state (quad ! i)))" and "nrows (hess (state (quad ! i))) = ncols F"
    and "\<forall>j\<in>control_players quad i. symmetric (Rij quad i j) \<and> nrows (Rij quad i j) = UDim d j"
  shows "symmetric (spec_Z d quad X F Zs i)"
proof -
  have Q: "ent (hess (state (quad ! i))) a b = ent (hess (state (quad ! i))) b a"
    if "a < ncols F" "b < ncols F" for a b
    using assms(3,4) that by (simp add: symmetric_def)
  have R: "ent (mat_mul (mat_mul (transpose_mat (P_rows d X j)) (Rij quad i j)) (P_rows d X j)) a b
         = ent (mat_mul (mat_mul (transpose_mat (P_rows d X j)) (Rij quad i j)) (P_rows d X j)) b a"
    if "j \<in> control_players quad i" for j a b
    using assms(5) that by (intro congruence_symmetric) simp_all
  have Fz: "ent (mat_mul (mat_mul (transpose_mat F) (Zs ! i)) F) a b
          = ent (mat_mul (mat_mul (transpose_mat F) (Zs ! i)) F) b a" for a b
    using assms(1,2) by (rule congruence_symmetric)
  have "ent (spec_Z d quad X F Zs i) a b = ent (spec_Z d quad X F Zs i) b a"
    if "a < ncols F" "b < ncols F" for a b
    unfolding spec_Z_def using Q [OF that] Fz [of a b] R
    by (simp del: ent_simps(1) add: ent_mat_mul [symmetric] cong: sum.cong)
  then show ?thesis
    by (simp add: symmetric_def spec_Z_def)
qed

lemma Rij_symmetric:
  assumes wf: "wf_cost d (quad ! i)" and j: "j \<in> control_players quad i"
    and sym: "\<forall>entry\<in>set (control (quad ! i)). symmetric (hess (snd entry))"
  shows "symmetric (Rij quad i j) \<and> nrows (Rij quad i j) = UDim d j"
proof -
  have "map_of (control (quad ! i)) j \<noteq> None"
    using j by (simp add: control_players_def map_of_eq_None_iff)
  then obtain c where c: "map_of (control (quad ! i)) j = Some c"
    by blast
  then have "(j, c) \<in> set (control (quad ! i))"
    by (rule map_of_SomeD)
  then show ?thesis
    using wf sym by (auto simp: Rij_def c wf_cost_def)
qed

lemma backward_step_symmetric:
  assumes lin: "wf_lin d lin" and quad: "wf_quad d quad" and own: "own_costs d quad"
    and inv: "pass_invariant d K st" and kk: "kk < K"
    and symq: "\<forall>q\<in>set quad. symmetric (hess (state q))
                 \<and> (\<forall>entry\<in>set (control q). symmetric (hess (snd entry)))"
    and symZ: "\<forall>i<NumPlayers d. symmetric (m_Zs (fst st) ! i)"
    and run: "backward_step qr lin quad kk st = Inr st'"
  shows "\<forall>i<NumPlayers d. symmetric (m_Zs (fst st') ! i)"
proof -
  obtain sv strategies where st: "st = (sv, strategies)"
    by (cases st)
  have vals: "wf_values d (m_Zs sv) (m_zetas sv)" and d: "m_dynamics sv = d"
    and str: "wf_strategies d kk strategies"
    using inv kk by (auto simp: pass_invariant_def st wf_strategies_def)
  from backward_step_result [OF lin quad own vals str d, of qr] run
  have F: "m_F (fst st') = spec_F d lin (m_X (fst st'))"
    and nthZ: "\<forall>i<NumPlayers d.
               m_Zs (fst st') ! i = spec_Z d quad (m_X (fst st')) (m_F (fst st')) (m_Zs sv) i"
    by (auto simp: st)
  have dimF: "nrows (m_F (fst st')) = XDim d" "ncols (m_F (fst st')) = XDim d"
    using lin by (simp_all add: F spec_F_def wf_lin_def)
  have "symmetric (spec_Z d quad (m_X (fst st')) (m_F (fst st')) (m_Zs sv) i)"
    if i: "i < NumPlayers d" for i
  proof -
    have qi: "quad ! i \<in> set quad" and wfq: "wf_cost d (quad ! i)"
      using quad i by (simp_all add: wf_quad_def)
    have symi: "symmetric (hess (state (quad ! i)))"
      "\<forall>entry\<in>set (control (quad ! i)). symmetric (hess (snd entry))"
      using symq qi by simp_all
    show ?thesis
    proof (rule spec_Z_symmetric)
      show "symmetric (m_Zs sv ! i)"
        using symZ i by (simp add: st)
      show "nrows (m_F (fst st')) = nrows (m_Zs sv ! i)"
        using dimF vals i by (simp add: wf_values_nth)
      show "symmetric (hess (state (quad ! i)))"
        by (rule symi(1))
      show "nrows (hess (state (quad ! i))) = ncols (m_F (fst st'))"
        using wfq dimF by (simp add: wf_cost_def)
      show "\<forall>j\<in>control_players quad i. symmetric (Rij quad i j) \<and> nrows (Rij quad i j) = UDim d j"
        using Rij_symmetric [OF wfq _ symi(2)] by blast
    qed
  qed
  then show ?thesis
    using nthZ by simp
qed

lemma backward_pass_symmetric:
  assumes lins: "\<forall>lin\<in>set lins. wf_lin d lin" and quads: "\<forall>quad\<in>set quads. wf_quad d quad"
    and len: "length lins = K" "length quads = K"
    and sym: "symmetric_costs quads"
    and kks: "\<forall>kk\<in>set kks. kk < K \<and> own_costs d (quads ! kk)"
    and inv: "pass_invariant d K st"
    and symZ: "\<forall>i<NumPlayers d. symmetric (m_Zs (fst st) ! i)"
    and run: "backward_pass qr lins quads kks st = Inr st'"
  shows "\<forall>i<NumPlayers d. symmetric (m_Zs (fst st') ! i)"
  using kks inv symZ run
proof (induction kks arbitrary: st)
  case Nil
  then show ?case by simp
next
  case (Cons kk kks)
  have kK: "kk < K" and own: "own_costs d (quads ! kk)"
    using Cons.prems(1) by simp_all
  have wfk: "wf_lin d (lins ! kk)" "wf_quad d (quads ! kk)"
    using lins quads len kK by simp_all
  have mem: "quads ! kk \<in> set quads"
    using len kK by simp
  have symq: "\<forall>q\<in>set (quads ! kk). symmetric (hess (state q))
                 \<and> (\<forall>entry\<in>set (control q). symmetric (hess (snd entry)))"
    using sym mem unfolding symmetric_costs_def by blast
  from backward_step_invariant [OF wfk own Cons.prems(2) kK, of qr]
  obtain st1 where one: "backward_step qr (lins ! kk) (quads ! kk) kk st = Inr st1"
    and inv1: "pass_invariant d K st1"
    by blast
  have sym1: "\<forall>i<NumPlayers d. symmetric (m_Zs (fst st1) ! i)"
    by (rule backward_step_symmetric [OF wfk own Cons.prems(2) kK symq Cons.prems(3) one])
  have rest: "backward_pass qr lins quads kks st1 = Inr st'"
    using Cons.prems(4) one kK len by simp
  show ?case
    using Cons.IH [OF _ inv1 sym1 rest] Cons.prems(1) by simp
qed

text \<open>
  Claim C2, amended: the backward pass has no step that symmetrizes \<open>Z\<^sub>i\<close>. In exact
  arithmetic the \<open>Z\<^sub>i\<close> that enter any step \<open>k\<close> are symmetric all the same, provided that
  the state Hessians of all time steps and all control Hessians are symmetric.
\<close>

theorem Zs_symmetric_without_symmetrization:
  assumes wf: "wf_problem sv lins quads" and hor: "horizons_match sv lins quads"
    and own: "own_costs_present sv quads" and sym: "symmetric_costs quads"
    and d: "m_dynamics sv = d"
  shows "\<exists>sv_k st_k. Solve_until qr sv lins quads k = Inr (sv_k, st_k)
           \<and> (\<forall>i<NumPlayers d. symmetric (m_Zs sv_k ! i))"
proof -
  let ?K = "m_num_time_steps sv"
  from Solve_setup_result [OF wf hor]
  obtain sv0 st0 where set: "Solve_setup sv lins quads = Inr (sv0, st0)"
    and inv0: "pass_invariant d ?K (sv0, st0)"
    and Z0: "\<forall>i<NumPlayers d. m_Zs sv0 ! i = hess (state (last quads ! i))"
    using d by auto
  have wfs: "\<forall>lin\<in>set lins. wf_lin d lin" "\<forall>quad\<in>set quads. wf_quad d quad"
    "length lins = ?K" "length quads = ?K"
    using wf hor d by (auto simp: wf_problem_def horizons_match_def)
  have ne: "quads \<noteq> []"
    using wf wfs(4) by (auto simp: wf_problem_def)
  then have lastq: "last quads \<in> set quads"
    by simp
  then have "length (last quads) = NumPlayers d"
    using wfs(2) by (simp add: wf_quad_def)
  then have "symmetric (hess (state (last quads ! i)))" if "i < NumPlayers d" for i
    using sym lastq that by (simp add: symmetric_costs_def)
  then have sym0: "\<forall>i<NumPlayers d. symmetric (m_Zs (fst (sv0, st0)) ! i)"
    using Z0 by simp
  have kks: "\<forall>kk\<in>set (rev [Suc k..<?K - 1]). kk < ?K \<and> own_costs d (quads ! kk)"
    using own d by (auto simp: own_costs_present_def)
  from backward_pass_invariant [OF wfs kks inv0, of qr]
  obtain sv_k st_k where run: "backward_pass qr lins quads (rev [Suc k..<?K - 1]) (sv0, st0) = Inr (sv_k, st_k)"
    by auto
  have "\<forall>i<NumPlayers d. symmetric (m_Zs (fst (sv_k, st_k)) ! i)"
    by (rule backward_pass_symmetric [OF wfs sym kks inv0 sym0 run])
  moreover have "Solve_until qr sv lins quads k = Inr (sv_k, st_k)"
    using set run by (simp add: Solve_until_def)
  ultimately show ?thesis
    by auto
qed


section \<open>The example problems\<close>

lemma point_mass_wf: "wf_problem point_mass_solver point_mass_lins point_mass_quads"
  by code_simp

lemma point_mass_horizons: "horizons_match point_mass_solver point_mass_lins point_mass_quads"
  by code_simp

lemma point_mass_own: "own_costs_present point_mass_solver point_mass_quads"
  by code_simp

lemma point_mass_symmetric: "symmetric_costs point_mass_quads"
  by code_simp

lemma point_mass_dynamics: "m_dynamics point_mass_solver = point_mass"
  by (simp add: point_mass_solver_def LQFeedbackSolver_ctor_def)

lemma point_mass_steps: "m_num_time_steps point_mass_solver = 3"
  by (simp add: point_mass_solver_def LQFeedbackSolver_ctor_def)

lemma point_mass_missing_wf: "wf_problem point_mass_solver point_mass_lins point_mass_quads_missing"
  by code_simp

lemma point_mass_missing_horizons:
  "horizons_match point_mass_solver point_mass_lins point_mass_quads_missing"
  by code_simp

lemma point_mass_missing_own: "\<not> own_costs_present point_mass_solver point_mass_quads_missing"
  by code_simp

text \<open>
  Claim C1, as stated, at the point mass with a single time step: both returned
  strategies hold one gain and one feedforward term, where the claim has none.
\<close>

theorem Solve_strategy_lengths_counterexample:
  "map_sum id strategy_lengths
     (Solve solve_2x2 (LQFeedbackSolver_ctor point_mass 1) [point_mass_lin] [point_mass_quad])
   = Inr [(1, 1), (1, 1)]"
  by code_simp

text \<open>
  Claim C2, as stated, at a single player over three time steps whose terminal state
  Hessian is symmetric: the \<open>Z\<close> that enters step \<open>0\<close> has \<open>1\<close> above the diagonal and
  \<open>0\<close> below it.
\<close>

theorem Zs_symmetric_counterexample:
  "map_sum id Zs_rows
     (Solve_until solve_1x1 (LQFeedbackSolver_ctor single_player 3) (replicate 3 single_lin)
        skewed_quads 0)
   = Inr [ [ [2, 1], [0, 3 / 2] ] ]
   \<and> map_sum id Zs_symmetric
       (Solve_until solve_1x1 (LQFeedbackSolver_ctor single_player 3) (replicate 3 single_lin)
          skewed_quads 0)
     = Inr [False]"
  by code_simp

text \<open>
  Claim C5, as stated, at a solver for three time steps that is handed two
  linearizations: the call fails inside \<^verbatim>\<open>Solve\<close>.
\<close>

theorem Solve_fails_counterexample:
  "Solve solve_2x2 point_mass_solver (replicate 2 point_mass_lin) point_mass_quads
     = Inl (CheckFailed LinearizationSize)"
  by (simp add: Solve_def Solve_setup_def point_mass_solver_def LQFeedbackSolver_ctor_def)


theorem Solve_strategy_lengths_witness:
  "wf_problem point_mass_solver point_mass_lins point_mass_quads
   \<and> horizons_match point_mass_solver point_mass_lins point_mass_quads
   \<and> own_costs_present point_mass_solver point_mass_quads
   \<and> (\<exists>sv' strategies.
         Solve solve_2x2 point_mass_solver point_mass_lins point_mass_quads = Inr (sv', strategies)
       \<and> length strategies = NumPlayers point_mass
       \<and> (\<forall>i<NumPlayers point_mass.
             length (Ps (strategies ! i)) = 3 \<and> length (alphas (strategies ! i)) = 3
             \<and> Ps (strategies ! i) ! (3 - 1) = Zero_mat (UDim point_mass i) (XDim point_mass)
             \<and> alphas (strategies ! i) ! (3 - 1) = Zero_mat (UDim point_mass i) 1))"
  using Solve_strategy_lengths [OF point_mass_wf point_mass_horizons point_mass_own
          point_mass_dynamics point_mass_steps, of solve_2x2]
    point_mass_wf point_mass_horizons point_mass_own
  by (intro conjI)

lemma point_mass_step: "(1::nat) < m_num_time_steps point_mass_solver - 1"
  by (simp add: point_mass_steps)

theorem linear_system_structure_witness:
  "wf_problem point_mass_solver point_mass_lins point_mass_quads
   \<and> horizons_match point_mass_solver point_mass_lins point_mass_quads
   \<and> own_costs_present point_mass_solver point_mass_quads
   \<and> (1::nat) < m_num_time_steps point_mass_solver - 1
   \<and> (\<exists>sv_k st_k point_mass_solver' st'.
           Solve_until solve_2x2 point_mass_solver point_mass_lins point_mass_quads 1 = Inr (sv_k, st_k)
         \<and> backward_step solve_2x2 (point_mass_lins ! 1) (point_mass_quads ! 1) 1 (sv_k, st_k) = Inr (point_mass_solver', st')
         \<and> Solve solve_2x2 point_mass_solver point_mass_lins point_mass_quads = backward_pass solve_2x2 point_mass_lins point_mass_quads (rev [0..<1]) (point_mass_solver', st')
         \<and> (\<forall>i<NumPlayers point_mass. \<forall>j<NumPlayers point_mass.
               mat_eq (block (m_S point_mass_solver') (cumulative_udim point_mass i) (cumulative_udim point_mass j) (UDim point_mass i) (UDim point_mass j))
                 (spec_S_block (point_mass_lins ! 1) (point_mass_quads ! 1) (m_Zs sv_k) i j))
         \<and> (\<forall>i<NumPlayers point_mass.
               mat_eq (block (m_Y point_mass_solver') (cumulative_udim point_mass i) 0 (UDim point_mass i) (XDim point_mass))
                 (spec_Y_state (point_mass_lins ! 1) (m_Zs sv_k) i)
               \<and> mat_eq (block (m_Y point_mass_solver') (cumulative_udim point_mass i) (XDim point_mass) (UDim point_mass i) 1)
                   (spec_Y_last (point_mass_lins ! 1) (point_mass_quads ! 1) (m_zetas sv_k) i))
         \<and> m_X point_mass_solver' = solve_2x2 (m_S point_mass_solver') (m_Y point_mass_solver')
         \<and> (\<forall>i<NumPlayers point_mass.
               Ps (st' ! i) ! 1 = block (m_X point_mass_solver') (cumulative_udim point_mass i) 0 (UDim point_mass i) (XDim point_mass)
               \<and> alphas (st' ! i) ! 1
                   = block (m_X point_mass_solver') (cumulative_udim point_mass i) (XDim point_mass) (UDim point_mass i) 1))
   \<and> map_sum id S_Y_rows
       (and_then (Solve_until solve_2x2 point_mass_solver point_mass_lins point_mass_quads 1)
          (backward_step solve_2x2 (point_mass_lins ! 1) (point_mass_quads ! 1) 1))
     = Inr ([ [40401 / 40000, 279 / 250000], [279 / 125000, 12503281 / 12500000] ],
            [ [1 / 200, 201 / 2000, 0], [4 / 625, 283 / 12500, 0] ])"
proof -
  have numbers: "map_sum id S_Y_rows
       (and_then (Solve_until solve_2x2 point_mass_solver point_mass_lins point_mass_quads 1)
          (backward_step solve_2x2 (point_mass_lins ! 1) (point_mass_quads ! 1) 1))
     = Inr ([ [40401 / 40000, 279 / 250000], [279 / 125000, 12503281 / 12500000] ],
            [ [1 / 200, 201 / 2000, 0], [4 / 625, 283 / 12500, 0] ])"
    by code_simp
  show ?thesis
    using linear_system_structure [OF point_mass_wf point_mass_horizons point_mass_own
            point_mass_step point_mass_dynamics, of solve_2x2]
      point_mass_wf point_mass_horizons point_mass_own point_mass_step numbers
    by (intro conjI)
qed

theorem value_update_witness:
  "wf_problem point_mass_solver point_mass_lins point_mass_quads
   \<and> horizons_match point_mass_solver point_mass_lins point_mass_quads
   \<and> own_costs_present point_mass_solver point_mass_quads
   \<and> (1::nat) < m_num_time_steps point_mass_solver - 1
   \<and> (\<exists>sv_k st_k point_mass_solver' st'.
           Solve_until solve_2x2 point_mass_solver point_mass_lins point_mass_quads 1 = Inr (sv_k, st_k)
         \<and> backward_step solve_2x2 (point_mass_lins ! 1) (point_mass_quads ! 1) 1 (sv_k, st_k) = Inr (point_mass_solver', st')
         \<and> Solve solve_2x2 point_mass_solver point_mass_lins point_mass_quads = backward_pass solve_2x2 point_mass_lins point_mass_quads (rev [0..<1]) (point_mass_solver', st')
         \<and> (\<forall>j<NumPlayers point_mass. Ps (st' ! j) ! 1 = P_rows point_mass (m_X point_mass_solver') j
                               \<and> alphas (st' ! j) ! 1 = alpha_rows point_mass (m_X point_mass_solver') j)
         \<and> m_F point_mass_solver' = spec_F point_mass (point_mass_lins ! 1) (m_X point_mass_solver')
         \<and> m_beta point_mass_solver' = spec_beta point_mass (point_mass_lins ! 1) (m_X point_mass_solver')
         \<and> (\<forall>i<NumPlayers point_mass.
               m_zetas point_mass_solver' ! i
                 = spec_zeta point_mass (point_mass_quads ! 1) (m_X point_mass_solver') (m_F point_mass_solver') (m_beta point_mass_solver') (m_Zs sv_k) (m_zetas sv_k) i
               \<and> m_Zs point_mass_solver' ! i = spec_Z point_mass (point_mass_quads ! 1) (m_X point_mass_solver') (m_F point_mass_solver') (m_Zs sv_k) i))
   \<and> map_sum id F_rows
       (and_then (Solve_until solve_2x2 point_mass_solver point_mass_lins point_mass_quads 1)
          (backward_step solve_2x2 (point_mass_lins ! 1) (point_mass_quads ! 1) 1))
     = Inr [ [20204840000 / 20205752409, 669692000 / 6735250803],
            [- (11408000 / 20205752409), 6666589600 / 6735250803] ]"
proof -
  have numbers: "map_sum id F_rows
       (and_then (Solve_until solve_2x2 point_mass_solver point_mass_lins point_mass_quads 1)
          (backward_step solve_2x2 (point_mass_lins ! 1) (point_mass_quads ! 1) 1))
     = Inr [ [20204840000 / 20205752409, 669692000 / 6735250803],
            [- (11408000 / 20205752409), 6666589600 / 6735250803] ]"
    by code_simp
  show ?thesis
    using value_update [OF point_mass_wf point_mass_horizons point_mass_own
            point_mass_step point_mass_dynamics, of solve_2x2]
      point_mass_wf point_mass_horizons point_mass_own point_mass_step numbers
    by (intro conjI)
qed

theorem Zs_symmetric_without_symmetrization_witness:
  "wf_problem point_mass_solver point_mass_lins point_mass_quads
   \<and> horizons_match point_mass_solver point_mass_lins point_mass_quads
   \<and> own_costs_present point_mass_solver point_mass_quads
   \<and> symmetric_costs point_mass_quads
   \<and> (\<exists>sv_k st_k. Solve_until solve_2x2 point_mass_solver point_mass_lins point_mass_quads 0 = Inr (sv_k, st_k)
           \<and> (\<forall>i<NumPlayers point_mass. symmetric (m_Zs sv_k ! i)))"
  using Zs_symmetric_without_symmetrization [OF point_mass_wf point_mass_horizons
          point_mass_own point_mass_symmetric point_mass_dynamics, of solve_2x2 0]
    point_mass_wf point_mass_horizons point_mass_own point_mass_symmetric
  by (intro conjI)

lemma point_mass_short_lins_wf:
  "wf_problem point_mass_solver (replicate 2 point_mass_lin) point_mass_quads"
  by code_simp

lemma point_mass_short_quads_wf:
  "wf_problem point_mass_solver point_mass_lins (replicate 2 point_mass_quad)"
  by code_simp

theorem Solve_failures_witness:
  "(wf_problem point_mass_solver (replicate 2 point_mass_lin) point_mass_quads
      \<and> length (replicate 2 point_mass_lin) \<noteq> m_num_time_steps point_mass_solver
      \<and> Solve solve_2x2 point_mass_solver (replicate 2 point_mass_lin) point_mass_quads
          = Inl (CheckFailed LinearizationSize))
   \<and> (wf_problem point_mass_solver point_mass_lins (replicate 2 point_mass_quad)
      \<and> length point_mass_lins = m_num_time_steps point_mass_solver
      \<and> length (replicate 2 point_mass_quad) \<noteq> m_num_time_steps point_mass_solver
      \<and> Solve solve_2x2 point_mass_solver point_mass_lins (replicate 2 point_mass_quad)
          = Inl (CheckFailed QuadraticizationSize))
   \<and> (wf_problem point_mass_solver point_mass_lins point_mass_quads_missing
      \<and> horizons_match point_mass_solver point_mass_lins point_mass_quads_missing
      \<and> \<not> own_costs_present point_mass_solver point_mass_quads_missing
      \<and> Solve solve_2x2 point_mass_solver point_mass_lins point_mass_quads_missing
          = Inl (CheckFailed OwnControlCost))
   \<and> (wf_problem point_mass_solver point_mass_lins point_mass_quads
   \<and> horizons_match point_mass_solver point_mass_lins point_mass_quads
   \<and> own_costs_present point_mass_solver point_mass_quads
      \<and> (\<exists>result. Solve solve_2x2 point_mass_solver point_mass_lins point_mass_quads = Inr result))"
proof -
  have l: "length (replicate 2 point_mass_lin) \<noteq> m_num_time_steps point_mass_solver"
    "length point_mass_lins = m_num_time_steps point_mass_solver"
    "length (replicate 2 point_mass_quad) \<noteq> m_num_time_steps point_mass_solver"
    by (simp_all add: point_mass_steps point_mass_lins_def)
  have a: "Solve solve_2x2 point_mass_solver (replicate 2 point_mass_lin) point_mass_quads
          = Inl (CheckFailed LinearizationSize)"
    using Solve_failures [OF point_mass_short_lins_wf, of solve_2x2] l(1) by blast
  have b: "Solve solve_2x2 point_mass_solver point_mass_lins (replicate 2 point_mass_quad)
          = Inl (CheckFailed QuadraticizationSize)"
    using Solve_failures [OF point_mass_short_quads_wf, of solve_2x2] l(2,3) by blast
  have c: "Solve solve_2x2 point_mass_solver point_mass_lins point_mass_quads_missing
          = Inl (CheckFailed OwnControlCost)"
    using Solve_failures [OF point_mass_missing_wf, of solve_2x2]
      point_mass_missing_horizons point_mass_missing_own by blast
  have e: "\<exists>result. Solve solve_2x2 point_mass_solver point_mass_lins point_mass_quads = Inr result"
    using Solve_failures [OF point_mass_wf, of solve_2x2] point_mass_horizons point_mass_own
    by blast
  show ?thesis
    using a b c e l point_mass_short_lins_wf point_mass_short_quads_wf point_mass_missing_wf
      point_mass_missing_horizons point_mass_missing_own
      point_mass_wf point_mass_horizons point_mass_own
    by (intro conjI)
qed

end
